theory Spec2Isabelle
  imports Complex_Main "HOL-Library.AList"
begin

section \<open>The relay server of the undercover word game\<close>

text \<open>
  The server side of the repository: the room code generator (utils/helpers.ts), the
  GameRoom class (rooms/gameRoom.ts), the RoomManager (rooms/roomManager.ts) and the
  Socket.IO event handlers (handlers/gameHandlers.ts). Mutation of the three global
  tables is written as explicit state passing; what a handler sends (callbacks, emits,
  transport group joins) is returned as a list of effects. Logging is left out.
\<close>

subsection \<open>JavaScript Map\<close>

text \<open>
  A JavaScript \<^verbatim>\<open>Map\<close> keeps its entries in insertion order: \<^verbatim>\<open>set\<close> on a present key
  replaces the value in place, on an absent key it appends; \<^verbatim>\<open>delete\<close> removes the
  entry. An association list with the update and delete of the library's AList has
  exactly this behaviour.
\<close>

type_synonym ('k, 'v) jsmap = "('k \<times> 'v) list"

definition map_get :: "('k, 'v) jsmap \<Rightarrow> 'k \<Rightarrow> 'v option" where
  "map_get m k = map_of m k"

definition map_has :: "('k, 'v) jsmap \<Rightarrow> 'k \<Rightarrow> bool" where
  "map_has m k = (case map_of m k of None \<Rightarrow> False | Some _ \<Rightarrow> True)"

definition map_set :: "('k, 'v) jsmap \<Rightarrow> 'k \<Rightarrow> 'v \<Rightarrow> ('k, 'v) jsmap" where
  "map_set m k v = AList.update k v m"

definition map_delete :: "('k, 'v) jsmap \<Rightarrow> 'k \<Rightarrow> ('k, 'v) jsmap" where
  "map_delete m k = AList.delete k m"

definition map_size :: "('k, 'v) jsmap \<Rightarrow> nat" where
  "map_size m = length m"

definition map_keys :: "('k, 'v) jsmap \<Rightarrow> 'k list" where
  "map_keys m = map fst m"

subsection \<open>types/game.ts\<close>

text \<open>
  The payload types. A field \<^verbatim>\<open>f?: T\<close> is an option; \<^verbatim>\<open>number\<close> fields are never computed
  with by the server and are carried as integers. The fields \<^verbatim>\<open>id\<close> and \<^verbatim>\<open>name\<close> of a
  player are \<open>player_id\<close> and \<open>player_name\<close>; the map \<^verbatim>\<open>players\<close> of a room is
  \<open>room_players\<close>, so that \<open>players\<close> is the array inside the game state.
\<close>

datatype PlayerRole = Civilian | Undercover | MrWhite | Spectator

record RoleDistribution =
  undercovers :: int
  mrWhites :: int

record Player =
  player_id :: string
  player_name :: string
  word :: "string option"
  role :: "PlayerRole option"
  isEliminated :: "bool option"
  score :: "int option"
  submittedDescription :: "string option"

datatype GamePhase = Setup | WordReveal | Discussion | Voting | Results | GameEnd

record GameState =
  players :: "Player list"
  phase :: GamePhase
  currentRound :: int
  majorityWord :: string
  undercoverWord :: string
  votingResults :: "(string \<times> string) list option"
  speakingOrder :: "string list option"
  lastEliminatedId :: "string option"
  winner :: "string option"
  mrWhiteGuess :: "string option"
  roleDistribution :: RoleDistribution

subsection \<open>utils/helpers.ts: generateRoomId\<close>

definition characters :: string where
  "characters = ''ABCDEFGHJKLMNPQRSTUVWXYZ23456789''"

text \<open>\<^verbatim>\<open>String.prototype.charAt\<close>: the empty string when the index is out of range.\<close>

definition charAt :: "string \<Rightarrow> int \<Rightarrow> string" where
  "charAt s i = (if 0 \<le> i \<and> i < int (length s) then [s ! nat i] else [])"

text \<open>
  The \<open>k\<close>-th call of \<^verbatim>\<open>Math.random()\<close> returns \<open>rnd k\<close>. The product with the
  length of the alphabet, a power of two, is exact in binary floating point, so the
  real product and its floor are what the code computes.
\<close>

function generateRoomId_loop :: "(nat \<Rightarrow> real) \<Rightarrow> nat \<Rightarrow> string \<Rightarrow> string" where
  "generateRoomId_loop rnd i result =
     (if i < 6
      then generateRoomId_loop rnd (i + 1)
             (result @ charAt characters \<lfloor>rnd i * real (length characters)\<rfloor>)
      else result)"
  by pat_completeness auto
termination
  by (relation "measure (\<lambda>(rnd, i, result). 6 - i)") auto

definition generateRoomId :: "(nat \<Rightarrow> real) \<Rightarrow> string" where
  "generateRoomId rnd = generateRoomId_loop rnd 0 ''''"

subsection \<open>rooms/gameRoom.ts: GameRoom\<close>

record GameRoom =
  roomId :: string
  hostId :: string
  room_players :: "(string, Player) jsmap"
  gameState :: GameState

definition mkPlayer :: "string \<Rightarrow> string \<Rightarrow> Player" where
  "mkPlayer pid pname =
     \<lparr>player_id = pid, player_name = pname, word = None, role = None,
      isEliminated = None, score = None, submittedDescription = None\<rparr>"

text \<open>The constructor.\<close>

definition new_GameRoom :: "string \<Rightarrow> string \<Rightarrow> string \<Rightarrow> GameRoom" where
  "new_GameRoom rid hid hostName =
     (let hostPlayer = mkPlayer hid hostName in
      \<lparr>roomId = rid, hostId = hid,
       room_players = map_set [] hid hostPlayer,
       gameState =
         \<lparr>players = [hostPlayer], phase = Setup, currentRound = 1,
          majorityWord = '''', undercoverWord = '''',
          votingResults = None, speakingOrder = None, lastEliminatedId = None,
          winner = None, mrWhiteGuess = None,
          roleDistribution = \<lparr>undercovers = 1, mrWhites = 0\<rparr>\<rparr>\<rparr>)"

definition getRoomId :: "GameRoom \<Rightarrow> string" where
  "getRoomId room = roomId room"

definition getHostId :: "GameRoom \<Rightarrow> string" where
  "getHostId room = hostId room"

definition getGameState :: "GameRoom \<Rightarrow> GameState" where
  "getGameState room = gameState room"

text \<open>
  \<^verbatim>\<open>updateGameState\<close>: the new state is stored, then every player of its array is
  written into the map, in array order.
\<close>

definition updateGameState :: "GameRoom \<Rightarrow> GameState \<Rightarrow> GameRoom" where
  "updateGameState room newState =
     room\<lparr>gameState := newState,
          room_players :=
            fold (\<lambda>player m. map_set m (player_id player) player)
              (players newState) (room_players room)\<rparr>"

text \<open>\<^verbatim>\<open>addPlayer\<close> returns the new player object beside the updated room.\<close>

definition addPlayer :: "GameRoom \<Rightarrow> string \<Rightarrow> string \<Rightarrow> Player \<times> GameRoom" where
  "addPlayer room playerId playerName =
     (let newPlayer = mkPlayer playerId playerName in
      (newPlayer,
       room\<lparr>room_players := map_set (room_players room) playerId newPlayer,
            gameState := (gameState room)\<lparr>players := players (gameState room) @ [newPlayer]\<rparr>\<rparr>))"

definition removePlayer :: "GameRoom \<Rightarrow> string \<Rightarrow> GameRoom" where
  "removePlayer room playerId =
     room\<lparr>room_players := map_delete (room_players room) playerId,
          gameState := (gameState room)
            \<lparr>players := filter (\<lambda>p. player_id p \<noteq> playerId) (players (gameState room))\<rparr>\<rparr>"

definition getPlayer :: "GameRoom \<Rightarrow> string \<Rightarrow> Player option" where
  "getPlayer room playerId = map_get (room_players room) playerId"

definition getAllPlayers :: "GameRoom \<Rightarrow> Player list" where
  "getAllPlayers room = map snd (room_players room)"

definition isEmpty :: "GameRoom \<Rightarrow> bool" where
  "isEmpty room = (map_size (room_players room) = 0)"

subsection \<open>rooms/roomManager.ts: RoomManager\<close>

text \<open>
  The \<open>k\<close>-th call of \<^verbatim>\<open>generateRoomId()\<close> made by one \<^verbatim>\<open>createRoom\<close> returns \<open>gen k\<close>;
  with the random source \<open>rnd\<close> that is \<open>generated_codes rnd k\<close>, each call taking
  the next six values. The \<^verbatim>\<open>while\<close> loop has no bound in the source, so it is a
  partial function: \<open>None\<close> is the loop that never ends.
\<close>

definition generated_codes :: "(nat \<Rightarrow> real) \<Rightarrow> nat \<Rightarrow> string" where
  "generated_codes rnd k = generateRoomId (\<lambda>i. rnd (6 * k + i))"

partial_function (option) createRoom_loop ::
  "(nat \<Rightarrow> string) \<Rightarrow> (string, GameRoom) jsmap \<Rightarrow> nat \<Rightarrow> string option" where
  "createRoom_loop gen rs k =
     (if map_has rs (gen k) then createRoom_loop gen rs (Suc k) else Some (gen k))"

definition createRoom ::
  "(string, GameRoom) jsmap \<Rightarrow> string \<Rightarrow> string \<Rightarrow> (nat \<Rightarrow> string)
     \<Rightarrow> (string \<times> (string, GameRoom) jsmap) option" where
  "createRoom rs hid hostName gen =
     (case createRoom_loop gen rs 0 of
        None \<Rightarrow> None
      | Some rid \<Rightarrow> Some (rid, map_set rs rid (new_GameRoom rid hid hostName)))"

definition getRoom :: "(string, GameRoom) jsmap \<Rightarrow> string \<Rightarrow> GameRoom option" where
  "getRoom rs rid = map_get rs rid"

definition removeRoom :: "(string, GameRoom) jsmap \<Rightarrow> string \<Rightarrow> bool \<times> (string, GameRoom) jsmap" where
  "removeRoom rs rid = (map_has rs rid, map_delete rs rid)"

definition cleanupEmptyRooms :: "(string, GameRoom) jsmap \<Rightarrow> (string, GameRoom) jsmap" where
  "cleanupEmptyRooms rs = filter (\<lambda>(rid, room). \<not> isEmpty room) rs"

definition getRoomCount :: "(string, GameRoom) jsmap \<Rightarrow> nat" where
  "getRoomCount rs = map_size rs"

subsection \<open>handlers/gameHandlers.ts\<close>

text \<open>
  The state of the server: the room manager's map and the two global maps of
  utils/helpers.ts.
\<close>

record server =
  rooms :: "(string, GameRoom) jsmap"
  socketToPlayer :: "(string, string) jsmap"
  playerToRoom :: "(string, string) jsmap"

definition init_server :: server where
  "init_server = \<lparr>rooms = [], socketToPlayer = [], playerToRoom = []\<rparr>"

datatype event =
    Ev_gameState GameState
  | Ev_playerJoined Player
  | Ev_playerLeft string
  | Ev_submitVote string string
  | Ev_submitDescription string string
  | Ev_submitMrWhiteGuess string

text \<open>
  What a handler does to the outside, in order: \<open>SocketJoin sid rid\<close> is
  \<^verbatim>\<open>socket.join(rid)\<close>, \<open>ToRoomExceptSender rid sid e\<close> is \<^verbatim>\<open>socket.to(rid).emit\<close>,
  \<open>ToSender sid e\<close> is \<^verbatim>\<open>socket.emit\<close>, \<open>ToTarget t e\<close> is \<^verbatim>\<open>io.to(t).emit\<close>, and
  the two callbacks are the acknowledgements of createRoom and joinRoom.
\<close>

datatype effect =
    SocketJoin string string
  | SocketLeave string string
  | ToRoomExceptSender string string event
  | ToSender string event
  | ToTarget string event
  | CallbackRoomId string
  | CallbackJoin bool "string option"

text \<open>
  \<^verbatim>\<open>if (!x)\<close> on a value read from a map of strings is taken when the key is absent and
  also when the stored string is empty.
\<close>

definition truthy :: "string option \<Rightarrow> string option" where
  "truthy v = (case v of None \<Rightarrow> None | Some x \<Rightarrow> if x = [] then None else Some x)"

definition on_createRoom ::
  "server \<Rightarrow> string \<Rightarrow> string \<Rightarrow> (nat \<Rightarrow> string) \<Rightarrow> (server \<times> effect list) option" where
  "on_createRoom s sid username gen =
     (case createRoom (rooms s) sid username gen of
        None \<Rightarrow> None
      | Some (rid, rs') \<Rightarrow>
          Some (s\<lparr>rooms := rs',
                  socketToPlayer := map_set (socketToPlayer s) sid sid,
                  playerToRoom := map_set (playerToRoom s) sid rid\<rparr>,
                [SocketJoin sid rid, CallbackRoomId rid]))"

definition on_joinRoom :: "server \<Rightarrow> string \<Rightarrow> string \<Rightarrow> string \<Rightarrow> server \<times> effect list" where
  "on_joinRoom s sid rid username =
     (case getRoom (rooms s) rid of
        None \<Rightarrow> (s, [CallbackJoin False (Some ''Room not found'')])
      | Some room \<Rightarrow>
          (let (player, room') = addPlayer room sid username in
           (s\<lparr>rooms := map_set (rooms s) rid room',
              socketToPlayer := map_set (socketToPlayer s) sid sid,
              playerToRoom := map_set (playerToRoom s) sid rid\<rparr>,
            [SocketJoin sid rid,
             ToRoomExceptSender rid sid (Ev_playerJoined player),
             ToSender sid (Ev_gameState (getGameState room')),
             CallbackJoin True None])))"

definition on_updateGameState :: "server \<Rightarrow> string \<Rightarrow> GameState \<Rightarrow> server \<times> effect list" where
  "on_updateGameState s sid state =
     (case truthy (map_get (socketToPlayer s) sid) of
        None \<Rightarrow> (s, [])
      | Some playerId \<Rightarrow>
          (case truthy (map_get (playerToRoom s) playerId) of
             None \<Rightarrow> (s, [])
           | Some rid \<Rightarrow>
               (case getRoom (rooms s) rid of
                  None \<Rightarrow> (s, [])
                | Some room \<Rightarrow>
                    if getHostId room \<noteq> playerId then (s, [])
                    else (s\<lparr>rooms := map_set (rooms s) rid (updateGameState room state)\<rparr>,
                          [ToRoomExceptSender rid sid (Ev_gameState state)]))))"

text \<open>
  submitVote, submitDescription and submitMrWhiteGuess differ only in the event they
  forward to the host.
\<close>

definition forward_to_host :: "server \<Rightarrow> string \<Rightarrow> event \<Rightarrow> server \<times> effect list" where
  "forward_to_host s sid e =
     (case truthy (map_get (socketToPlayer s) sid) of
        None \<Rightarrow> (s, [])
      | Some playerId \<Rightarrow>
          (case truthy (map_get (playerToRoom s) playerId) of
             None \<Rightarrow> (s, [])
           | Some rid \<Rightarrow>
               (case getRoom (rooms s) rid of
                  None \<Rightarrow> (s, [])
                | Some room \<Rightarrow> (s, [ToTarget (getHostId room) e]))))"

definition handlePlayerDisconnect :: "server \<Rightarrow> string \<Rightarrow> server \<times> effect list" where
  "handlePlayerDisconnect s sid =
     (case truthy (map_get (socketToPlayer s) sid) of
        None \<Rightarrow> (s, [])
      | Some playerId \<Rightarrow>
          (case truthy (map_get (playerToRoom s) playerId) of
             None \<Rightarrow> (s, [])
           | Some rid \<Rightarrow>
               (case getRoom (rooms s) rid of
                  None \<Rightarrow> (s, [])
                | Some room \<Rightarrow>
                    (let room' = removePlayer room playerId;
                         rs1 = map_set (rooms s) rid room';
                         rs2 = (if isEmpty room' then snd (removeRoom rs1 rid) else rs1)
                     in (s\<lparr>rooms := rs2,
                           socketToPlayer := map_delete (socketToPlayer s) sid,
                           playerToRoom := map_delete (playerToRoom s) playerId\<rparr>,
                         [ToRoomExceptSender rid sid (Ev_playerLeft playerId),
                          SocketLeave sid rid])))))"

text \<open>
  The requests a connection can send, and the dispatch on them. A createRoom request
  carries, beside the user name, the codes that the generator returns while the request
  is handled.
\<close>

datatype request =
    CreateRoom string "nat \<Rightarrow> string"
  | JoinRoom string string
  | UpdateGameState GameState
  | SubmitVote string string
  | SubmitDescription string string
  | SubmitMrWhiteGuess string
  | LeaveRoom
  | Disconnect

fun handle :: "server \<Rightarrow> string \<Rightarrow> request \<Rightarrow> (server \<times> effect list) option" where
  "handle s sid (CreateRoom username gen) = on_createRoom s sid username gen"
| "handle s sid (JoinRoom rid username) = Some (on_joinRoom s sid rid username)"
| "handle s sid (UpdateGameState state) = Some (on_updateGameState s sid state)"
| "handle s sid (SubmitVote voterId targetId) =
     Some (forward_to_host s sid (Ev_submitVote voterId targetId))"
| "handle s sid (SubmitDescription playerId description) =
     Some (forward_to_host s sid (Ev_submitDescription playerId description))"
| "handle s sid (SubmitMrWhiteGuess guess) =
     Some (forward_to_host s sid (Ev_submitMrWhiteGuess guess))"
| "handle s sid LeaveRoom = Some (handlePlayerDisconnect s sid)"
| "handle s sid Disconnect = Some (handlePlayerDisconnect s sid)"

subsection \<open>The sender's room\<close>

text \<open>
  updateGameState, the three forwarding handlers and handlePlayerDisconnect all start
  with the same chain of lookups: socket to player, player to room code, room code to
  room, each with its early return. \<open>sender_room\<close> is that chain on its own; the
  handlers above spell it out as the source does, and the lemmas below relate the two.
\<close>

definition sender_room :: "server \<Rightarrow> string \<Rightarrow> (string \<times> string \<times> GameRoom) option" where
  "sender_room s sid =
     (case truthy (map_get (socketToPlayer s) sid) of
        None \<Rightarrow> None
      | Some playerId \<Rightarrow>
          (case truthy (map_get (playerToRoom s) playerId) of
             None \<Rightarrow> None
           | Some rid \<Rightarrow>
               (case getRoom (rooms s) rid of
                  None \<Rightarrow> None
                | Some room \<Rightarrow> Some (playerId, rid, room))))"

subsection \<open>Properties of server states\<close>

text \<open>
  The registry and the rooms agree: an identity is mapped to a room code exactly when
  that code names a live room whose player map has the identity as a key.
\<close>

definition consistent :: "server \<Rightarrow> bool" where
  "consistent s =
     (\<forall>pid rid. (map_get (playerToRoom s) pid = Some rid) =
        (\<exists>room. map_get (rooms s) rid = Some room \<and> map_has (room_players room) pid))"




text \<open>The states the server can be in: any requests, from any connections, in any order.\<close>

inductive reachable :: "server \<Rightarrow> bool" where
  reachable_init: "reachable init_server"
| reachable_step: "reachable s \<Longrightarrow> handle s sid req = Some (s', out) \<Longrightarrow> reachable s'"


text \<open>
  One direction of \<open>consistent\<close>: every identity that the registry maps to a room
  code is a member of the live room of that code.
\<close>

definition registry_in_rooms :: "server \<Rightarrow> bool" where
  "registry_in_rooms s =
     (\<forall>pid rid. map_get (playerToRoom s) pid = Some rid \<longrightarrow>
        (\<exists>room. map_get (rooms s) rid = Some room \<and> map_has (room_players room) pid))"

text \<open>Every player listed in the state is already a member of the room.\<close>

definition lists_members_only :: "GameRoom \<Rightarrow> GameState \<Rightarrow> bool" where
  "lists_members_only room state =
     list_all (\<lambda>p. map_has (room_players room) (player_id p)) (players state)"

text \<open>
  A request keeps to the discipline when a createRoom or joinRoom comes from a connection
  that the registry maps to no room, and an updateGameState that the host check lets
  through lists only members of the room. Every other request does.
\<close>

definition disciplined :: "server \<Rightarrow> string \<Rightarrow> request \<Rightarrow> bool" where
  "disciplined s sid req =
     (case req of
        CreateRoom username gen \<Rightarrow> \<not> map_has (playerToRoom s) sid
      | JoinRoom rid username \<Rightarrow> \<not> map_has (playerToRoom s) sid
      | UpdateGameState state \<Rightarrow>
          (case sender_room s sid of
             None \<Rightarrow> True
           | Some (pid, rid, room) \<Rightarrow> hostId room \<noteq> pid \<or> lists_members_only room state)
      | _ \<Rightarrow> True)"

text \<open>The states reached by requests of all eight kinds that keep to the discipline.\<close>

inductive reachable_disciplined :: "server \<Rightarrow> bool" where
  disciplined_init: "reachable_disciplined init_server"
| disciplined_step:
    "reachable_disciplined s \<Longrightarrow> disciplined s sid req \<Longrightarrow>
     handle s sid req = Some (s', out) \<Longrightarrow> reachable_disciplined s'"

subsection \<open>Concrete states\<close>

text \<open>
  Connection \<open>H\<close> (Alice) has created room \<open>AB23KQ\<close>; connection \<open>F\<close> (Bob) has
  joined it; \<open>H\<close> has published \<open>state_A\<close>. In \<open>scenario_two_rooms\<close> connection
  \<open>G\<close> (Carol) has created a second room instead; in \<open>scenario_headless\<close> the
  host \<open>H\<close> has left the room that \<open>F\<close> had joined.
\<close>

definition scenario_created :: server where
  "scenario_created =
     \<lparr>rooms = [(''AB23KQ'', new_GameRoom ''AB23KQ'' ''H'' ''Alice'')],
      socketToPlayer = [(''H'', ''H'')],
      playerToRoom = [(''H'', ''AB23KQ'')]\<rparr>"

definition scenario_joined :: server where
  "scenario_joined =
     \<lparr>rooms = [(''AB23KQ'', snd (addPlayer (new_GameRoom ''AB23KQ'' ''H'' ''Alice'') ''F'' ''Bob''))],
      socketToPlayer = [(''H'', ''H''), (''F'', ''F'')],
      playerToRoom = [(''H'', ''AB23KQ''), (''F'', ''AB23KQ'')]\<rparr>"

definition state_A :: GameState where
  "state_A =
     \<lparr>players = [mkPlayer ''H'' ''Alice'', mkPlayer ''F'' ''Bob''], phase = Voting,
      currentRound = 2, majorityWord = ''cat'', undercoverWord = ''dog'',
      votingResults = None, speakingOrder = None, lastEliminatedId = None,
      winner = None, mrWhiteGuess = None,
      roleDistribution = \<lparr>undercovers = 1, mrWhites = 0\<rparr>\<rparr>"

definition state_B :: GameState where
  "state_B = state_A\<lparr>phase := GameEnd, winner := Some ''F''\<rparr>"

definition scenario_published :: server where
  "scenario_published =
     \<lparr>rooms = [(''AB23KQ'',
         updateGameState (snd (addPlayer (new_GameRoom ''AB23KQ'' ''H'' ''Alice'') ''F'' ''Bob'')) state_A)],
      socketToPlayer = [(''H'', ''H''), (''F'', ''F'')],
      playerToRoom = [(''H'', ''AB23KQ''), (''F'', ''AB23KQ'')]\<rparr>"

definition scenario_two_rooms :: server where
  "scenario_two_rooms =
     \<lparr>rooms = [(''AB23KQ'', new_GameRoom ''AB23KQ'' ''H'' ''Alice''),
               (''CD45MN'', new_GameRoom ''CD45MN'' ''G'' ''Carol'')],
      socketToPlayer = [(''H'', ''H''), (''G'', ''G'')],
      playerToRoom = [(''H'', ''AB23KQ''), (''G'', ''CD45MN'')]\<rparr>"


text \<open>
  In \<open>scenario_ghost\<close> the host \<open>H\<close> of the fresh room has published
  \<open>state_A\<close>, which lists \<open>F\<close>, before anybody joined. In \<open>scenario_rebound\<close>
  connection \<open>H\<close> has created a second room \<open>CD45MN\<close> after \<open>AB23KQ\<close>, and in
  \<open>scenario_orphaned\<close> it has then disconnected. \<open>skip_first_code\<close> is a generator
  that returns \<open>AB23KQ\<close> first and \<open>EF67PR\<close> from then on.
\<close>

definition scenario_ghost :: server where
  "scenario_ghost =
     \<lparr>rooms = [(''AB23KQ'', updateGameState (new_GameRoom ''AB23KQ'' ''H'' ''Alice'') state_A)],
      socketToPlayer = [(''H'', ''H'')],
      playerToRoom = [(''H'', ''AB23KQ'')]\<rparr>"

definition scenario_rebound :: server where
  "scenario_rebound =
     \<lparr>rooms = [(''AB23KQ'', new_GameRoom ''AB23KQ'' ''H'' ''Alice''),
               (''CD45MN'', new_GameRoom ''CD45MN'' ''H'' ''Alice'')],
      socketToPlayer = [(''H'', ''H'')],
      playerToRoom = [(''H'', ''CD45MN'')]\<rparr>"

definition scenario_orphaned :: server where
  "scenario_orphaned =
     \<lparr>rooms = [(''AB23KQ'', new_GameRoom ''AB23KQ'' ''H'' ''Alice'')],
      socketToPlayer = [],
      playerToRoom = []\<rparr>"

definition skip_first_code :: "nat \<Rightarrow> string" where
  "skip_first_code k = (if k = 0 then ''AB23KQ'' else ''EF67PR'')"

section \<open>JavaScript Map: lookup after update and delete\<close>

lemma map_get_set: "map_get (map_set m k v) k' = (if k' = k then Some v else map_get m k')"
  by (simp add: map_get_def map_set_def update_conv')

lemma map_get_delete: "map_get (map_delete m k) k' = (if k' = k then None else map_get m k')"
  by (simp add: map_get_def map_delete_def delete_conv')

lemma map_has_get: "map_has m k = (map_get m k \<noteq> None)"
  by (simp add: map_has_def map_get_def split: option.splits)

lemma map_has_set: "map_has (map_set m k v) k' = (k' = k \<or> map_has m k')"
  by (simp add: map_has_get map_get_set)

lemma map_has_delete: "map_has (map_delete m k) k' = (k' \<noteq> k \<and> map_has m k')"
  by (simp add: map_has_get map_get_delete)

lemma map_has_keys: "map_has m k = (k \<in> set (map_keys m))"
  by (simp add: map_has_get map_get_def map_keys_def map_of_eq_None_iff)

lemma map_keys_set:
  "map_keys (map_set m k v) = (if map_has m k then map_keys m else map_keys m @ [k])"
  by (simp add: map_keys_def map_set_def update_keys map_has_keys)

lemma map_set_twice: "map_set (map_set m k v) k v' = map_set m k v'"
  by (simp add: map_set_def)

lemma map_has_empty: "map_has [] k = False"
  by (simp add: map_has_def)

lemma map_delete_empty:
  assumes "map_delete m k = []" "map_has m k'"
  shows "k' = k"
proof (rule ccontr)
  assume "k' \<noteq> k"
  then have "map_get (map_delete m k) k' = map_get m k'" by (simp add: map_get_delete)
  with assms(1) have "map_get m k' = None" by (simp add: map_get_def)
  with assms(2) show False by (simp add: map_has_get)
qed

lemma map_delete_only_key:
  assumes "set (map_keys m) \<subseteq> {k}"
  shows "map_delete m k = []"
proof -
  have "\<forall>p \<in> set m. fst p = k" using assms by (auto simp: map_keys_def)
  then have "filter (\<lambda>(k', _). k \<noteq> k') m = []" by (auto simp: filter_empty_conv)
  then show ?thesis by (simp add: map_delete_def AList.delete_eq)
qed

lemma map_delete_set_same: "map_delete (map_set m k v) k = map_delete m k"
  by (simp add: map_delete_def map_set_def delete_update_same)

lemma map_get_Cons: "map_get ((k, v) # m) k' = (if k' = k then Some v else map_get m k')"
  by (simp add: map_get_def)

lemma map_get_Nil: "map_get [] k = None"
  by (simp add: map_get_def)

lemma map_set_Cons:
  "map_set ((k, v) # m) k' v' = (if k = k' then (k', v') # m else (k, v) # map_set m k' v')"
  by (simp add: map_set_def)

lemma map_set_Nil: "map_set [] k v = [(k, v)]"
  by (simp add: map_set_def)

lemma map_delete_Cons:
  "map_delete ((k, v) # m) k' = (if k' = k then map_delete m k' else (k, v) # map_delete m k')"
  by (simp add: map_delete_def)

lemma map_delete_Nil: "map_delete [] k = []"
  by (simp add: map_delete_def)

lemmas map_eval = map_get_Cons map_get_Nil map_set_Cons map_set_Nil map_delete_Cons map_delete_Nil

section \<open>The room code generator\<close>

declare generateRoomId_loop.simps [simp del]

lemma length_characters: "length characters = 32"
  by (simp add: characters_def)

lemma charAt_random:
  assumes "0 \<le> r" "r < 1"
  shows "\<exists>c \<in> set characters. charAt characters \<lfloor>r * real (length characters)\<rfloor> = [c]"
proof -
  have lo: "0 \<le> \<lfloor>r * 32\<rfloor>" using assms by simp
  have "r * 32 < 32" using assms by simp
  then have hi: "\<lfloor>r * 32\<rfloor> < 32" by (simp add: floor_less_iff)
  from lo hi have "nat \<lfloor>r * 32\<rfloor> < length characters"
    unfolding length_characters by linarith
  then have "characters ! nat \<lfloor>r * 32\<rfloor> \<in> set characters"
    by (rule nth_mem)
  moreover from lo hi have "0 \<le> \<lfloor>r * real (length characters)\<rfloor> \<and>
      \<lfloor>r * real (length characters)\<rfloor> < int (length characters)"
    unfolding length_characters by simp
  ultimately show ?thesis
    unfolding charAt_def by (simp add: length_characters)
qed

lemma generateRoomId_loop_props:
  "\<forall>k. i \<le> k \<and> k < 6 \<longrightarrow> 0 \<le> rnd k \<and> rnd k < 1 \<Longrightarrow>
   length (generateRoomId_loop rnd i res) = length res + (6 - i) \<and>
   set (generateRoomId_loop rnd i res) \<subseteq> set res \<union> set characters"
proof (induction rnd i res rule: generateRoomId_loop.induct)
  case (1 rnd i result)
  show ?case
  proof (cases "i < 6")
    case True
    with "1.prems" have "0 \<le> rnd i" "rnd i < 1" by auto
    then obtain c where c: "c \<in> set characters"
      "charAt characters \<lfloor>rnd i * real (length characters)\<rfloor> = [c]"
      using charAt_random by blast
    have "\<forall>k. i + 1 \<le> k \<and> k < 6 \<longrightarrow> 0 \<le> rnd k \<and> rnd k < 1"
      using "1.prems" by auto
    from "1.IH"[OF True this] c True show ?thesis
      by (subst (1 2) generateRoomId_loop.simps) auto
  next
    case False
    then show ?thesis by (subst (1 2) generateRoomId_loop.simps) simp
  qed
qed

text \<open>
  The codes that createRoom draws from a random source in \<open>[0, 1)\<close> are never the
  empty string, which the handlers would take for a missing room code.
\<close>

lemma generated_codes_nonempty:
  assumes "\<forall>k. 0 \<le> rnd k \<and> rnd k < 1"
  shows "generated_codes rnd k \<noteq> []"
proof -
  from assms have "\<forall>i. 0 \<le> i \<and> i < 6 \<longrightarrow> 0 \<le> rnd (6 * k + i) \<and> rnd (6 * k + i) < 1"
    by simp
  from generateRoomId_loop_props[OF this, of "[]"]
  have "length (generated_codes rnd k) = 6"
    by (simp add: generated_codes_def generateRoomId_def)
  then show ?thesis by auto
qed

text \<open>
  C3, as amended: whenever the six values of \<^verbatim>\<open>Math.random()\<close> lie in \<open>[0, 1)\<close>,
  \<^verbatim>\<open>generateRoomId\<close> returns a string of six characters, each of them a symbol of the
  alphabet; the alphabet has 32 distinct symbols (not 33) and none of them is
  \<open>0\<close>, \<open>O\<close>, \<open>1\<close> or \<open>I\<close>.
\<close>

theorem generateRoomId_code:
  assumes "\<forall>k<6. 0 \<le> rnd k \<and> rnd k < 1"
  shows "length (generateRoomId rnd) = 6 \<and>
         set (generateRoomId rnd) \<subseteq> set characters \<and>
         length characters = 32 \<and> distinct characters \<and>
         set characters \<inter> {CHR ''0'', CHR ''O'', CHR ''1'', CHR ''I''} = {}"
proof -
  from assms have "\<forall>k. 0 \<le> k \<and> k < 6 \<longrightarrow> 0 \<le> rnd k \<and> rnd k < 1" by simp
  from generateRoomId_loop_props[OF this, of "[]"]
  have "length (generateRoomId rnd) = 6" "set (generateRoomId rnd) \<subseteq> set characters"
    by (simp_all add: generateRoomId_def)
  moreover have "distinct characters" by (simp add: characters_def)
  moreover have "set characters \<inter> {CHR ''0'', CHR ''O'', CHR ''1'', CHR ''I''} = {}"
    by (simp add: characters_def)
  ultimately show ?thesis by (simp add: length_characters)
qed

text \<open>The theorem at the generator whose random source is constantly one half.\<close>

theorem generateRoomId_code_witness:
  "generateRoomId (\<lambda>k. 1 / 2) = ''SSSSSS'' \<and>
   length (generateRoomId (\<lambda>k. 1 / 2)) = 6 \<and>
   set (generateRoomId (\<lambda>k. 1 / 2)) \<subseteq> set characters"
proof -
  have "generateRoomId (\<lambda>k. 1 / 2) = ''SSSSSS''"
    by (simp add: generateRoomId_def generateRoomId_loop.simps charAt_def characters_def)
  moreover have "\<forall>k<6. (0::real) \<le> 1 / 2 \<and> (1::real) / 2 < 1" by simp
  from generateRoomId_code[OF this]
  have "length (generateRoomId (\<lambda>k. 1 / 2)) = 6 \<and>
   set (generateRoomId (\<lambda>k. 1 / 2)) \<subseteq> set characters" by blast
  ultimately show ?thesis by blast
qed

text \<open>
  C3 as stated speaks of a 33-symbol alphabet: the alphabet of the code has neither 33
  entries nor 33 distinct symbols.
\<close>

theorem alphabet_not_33_symbols:
  "card (set characters) \<noteq> 33 \<and> length characters \<noteq> 33"
proof -
  have "distinct characters" by (simp add: characters_def)
  then have "card (set characters) = length characters" by (rule distinct_card)
  then show ?thesis by (simp add: length_characters)
qed

section \<open>The room: membership and the stored state\<close>

text \<open>
  C5, as amended: \<^verbatim>\<open>addPlayer\<close> and \<^verbatim>\<open>removePlayer\<close> do change the stored state, in
  its \<open>players\<close> array and nowhere else: \<^verbatim>\<open>addPlayer\<close> appends the new player to it,
  \<^verbatim>\<open>removePlayer\<close> filters the removed identity out of it, and with the old array put
  back the stored state is the old one.
\<close>

theorem membership_ops_touch_players_only:
  "gameState (snd (addPlayer room pid nm)) =
     (gameState room)\<lparr>players := players (gameState room) @ [mkPlayer pid nm]\<rparr> \<and>
   gameState (removePlayer room pid) =
     (gameState room)\<lparr>players := filter (\<lambda>p. player_id p \<noteq> pid) (players (gameState room))\<rparr> \<and>
   (gameState (snd (addPlayer room pid nm)))\<lparr>players := players (gameState room)\<rparr> = gameState room \<and>
   (gameState (removePlayer room pid))\<lparr>players := players (gameState room)\<rparr> = gameState room"
  by (simp add: addPlayer_def removePlayer_def Let_def)

text \<open>
  C5 as stated fails: after \<open>F\<close> is added to a fresh room, and after \<open>H\<close> is
  removed from it, the stored state is not what it was.
\<close>

theorem addPlayer_changes_state_blob:
  "gameState (snd (addPlayer (new_GameRoom ''AB23KQ'' ''H'' ''Alice'') ''F'' ''Bob''))
     \<noteq> gameState (new_GameRoom ''AB23KQ'' ''H'' ''Alice'') \<and>
   gameState (removePlayer (new_GameRoom ''AB23KQ'' ''H'' ''Alice'') ''H'')
     \<noteq> gameState (new_GameRoom ''AB23KQ'' ''H'' ''Alice'')"
  by (simp add: addPlayer_def removePlayer_def new_GameRoom_def Let_def mkPlayer_def)

lemma fold_map_set_get:
  "map_get (fold (\<lambda>player m. map_set m (player_id player) player) ps m) pid =
     (if pid \<in> player_id ` set ps
      then Some (last (filter (\<lambda>p. player_id p = pid) ps))
      else map_get m pid)"
proof (induction ps arbitrary: m)
  case Nil
  show ?case by simp
next
  case (Cons p ps)
  show ?case
    by (simp add: Cons.IH map_get_set filter_empty_conv) auto
qed

text \<open>
  C6, as amended: \<^verbatim>\<open>updateGameState\<close> stores the new state as it is and leaves the host
  identity and the room code unchanged; it reads the \<open>players\<close> array of the new state
  and writes each of its players into the player map, so the members after the publish
  are the members before together with the identities listed in the new state, each
  listed identity mapped to its last entry in the array.
\<close>

theorem updateGameState_effect:
  "gameState (updateGameState room st) = st \<and>
   hostId (updateGameState room st) = hostId room \<and>
   roomId (updateGameState room st) = roomId room \<and>
   map_get (room_players (updateGameState room st)) pid =
     (if pid \<in> player_id ` set (players st)
      then Some (last (filter (\<lambda>p. player_id p = pid) (players st)))
      else map_get (room_players room) pid) \<and>
   map_has (room_players (updateGameState room st)) pid =
     (pid \<in> player_id ` set (players st) \<or> map_has (room_players room) pid)"
  by (simp add: updateGameState_def fold_map_set_get map_has_get)

text \<open>
  C6 as stated fails on the member set: publishing a state that lists an identity
  \<open>X\<close> makes \<open>X\<close> a member of a room it was not a member of.
\<close>

theorem publish_changes_member_set:
  "map_has (room_players (updateGameState (new_GameRoom ''AB23KQ'' ''H'' ''Alice'')
       ((gameState (new_GameRoom ''AB23KQ'' ''H'' ''Alice''))\<lparr>players := [mkPlayer ''X'' ''Eve'']\<rparr>))) ''X'' \<and>
   \<not> map_has (room_players (new_GameRoom ''AB23KQ'' ''H'' ''Alice'')) ''X''"
  by (simp add: updateGameState_def new_GameRoom_def Let_def map_has_set map_has_empty mkPlayer_def)

text \<open>
  C7, as amended: for an identity that is already a member, \<^verbatim>\<open>addPlayer\<close> keeps the keys
  of the player map and their order, replaces the member's record by a fresh one with
  the new name, and appends one more entry to the \<open>players\<close> array of the stored
  state; a second identical call leaves the player map as the first call left it.
\<close>

theorem addPlayer_existing_member:
  assumes "map_has (room_players room) pid"
  shows "map_keys (room_players (snd (addPlayer room pid nm))) = map_keys (room_players room) \<and>
         map_get (room_players (snd (addPlayer room pid nm))) pid = Some (mkPlayer pid nm) \<and>
         players (gameState (snd (addPlayer room pid nm))) =
           players (gameState room) @ [mkPlayer pid nm] \<and>
         room_players (snd (addPlayer (snd (addPlayer room pid nm)) pid nm)) =
           room_players (snd (addPlayer room pid nm))"
  using assms by (simp add: addPlayer_def Let_def map_keys_set map_get_set map_set_twice)

text \<open>The theorem at the host of a fresh room, added again under another name.\<close>

theorem addPlayer_existing_member_witness:
  "map_has (room_players (new_GameRoom ''AB23KQ'' ''H'' ''Alice'')) ''H'' \<and>
   map_keys (room_players (snd (addPlayer (new_GameRoom ''AB23KQ'' ''H'' ''Alice'') ''H'' ''Al''))) = [''H''] \<and>
   players (gameState (snd (addPlayer (new_GameRoom ''AB23KQ'' ''H'' ''Alice'') ''H'' ''Al''))) =
     [mkPlayer ''H'' ''Alice'', mkPlayer ''H'' ''Al'']"
proof -
  have h: "map_has (room_players (new_GameRoom ''AB23KQ'' ''H'' ''Alice'')) ''H''"
    by (simp add: new_GameRoom_def Let_def map_has_set)
  have k: "map_keys (room_players (new_GameRoom ''AB23KQ'' ''H'' ''Alice'')) = [''H'']"
    by (simp add: new_GameRoom_def Let_def map_keys_set map_has_empty) (simp add: map_keys_def)
  have p: "players (gameState (new_GameRoom ''AB23KQ'' ''H'' ''Alice'')) = [mkPlayer ''H'' ''Alice'']"
    by (simp add: new_GameRoom_def Let_def)
  from addPlayer_existing_member[OF h, of "''Al''"] h k p show ?thesis by simp
qed

text \<open>
  C7 as stated fails: adding the host of a fresh room again changes the \<open>players\<close>
  array of the stored state, and adding \<open>F\<close> twice is not adding \<open>F\<close> once.
\<close>

theorem addPlayer_not_idempotent:
  "players (gameState (snd (addPlayer (new_GameRoom ''AB23KQ'' ''H'' ''Alice'') ''H'' ''Alice'')))
     \<noteq> players (gameState (new_GameRoom ''AB23KQ'' ''H'' ''Alice'')) \<and>
   snd (addPlayer (snd (addPlayer (new_GameRoom ''AB23KQ'' ''H'' ''Alice'') ''F'' ''Bob'')) ''F'' ''Bob'')
     \<noteq> snd (addPlayer (new_GameRoom ''AB23KQ'' ''H'' ''Alice'') ''F'' ''Bob'')"
proof -
  have "players (gameState (snd (addPlayer (snd (addPlayer (new_GameRoom ''AB23KQ'' ''H'' ''Alice'') ''F'' ''Bob'')) ''F'' ''Bob'')))
     \<noteq> players (gameState (snd (addPlayer (new_GameRoom ''AB23KQ'' ''H'' ''Alice'') ''F'' ''Bob'')))"
    by (simp add: addPlayer_def Let_def)
  then have "snd (addPlayer (snd (addPlayer (new_GameRoom ''AB23KQ'' ''H'' ''Alice'') ''F'' ''Bob'')) ''F'' ''Bob'')
     \<noteq> snd (addPlayer (new_GameRoom ''AB23KQ'' ''H'' ''Alice'') ''F'' ''Bob'')"
    by metis
  then show ?thesis by (simp add: addPlayer_def Let_def)
qed
section \<open>The room manager: the retry loop of createRoom\<close>

lemma createRoom_loop_absent:
  "\<not> map_has rs (gen k) \<Longrightarrow> createRoom_loop gen rs k = Some (gen k)"
  by (subst createRoom_loop.simps) simp

lemma createRoom_loop_collide:
  "map_has rs (gen k) \<Longrightarrow> createRoom_loop gen rs k = createRoom_loop gen rs (Suc k)"
  by (subst createRoom_loop.simps) simp

lemma createRoom_loop_skip:
  "\<forall>j<n. map_has rs (gen (k + j)) \<Longrightarrow> createRoom_loop gen rs k = createRoom_loop gen rs (k + n)"
proof (induction n arbitrary: k)
  case 0
  show ?case by simp
next
  case (Suc n)
  from Suc.prems have "map_has rs (gen k)" by (metis add.right_neutral zero_less_Suc)
  then have "createRoom_loop gen rs k = createRoom_loop gen rs (Suc k)"
    by (rule createRoom_loop_collide)
  moreover have "\<forall>j<n. map_has rs (gen (Suc k + j))"
    using Suc.prems by (metis Suc_less_eq add_Suc_right add_Suc)
  then have "createRoom_loop gen rs (Suc k) = createRoom_loop gen rs (Suc k + n)"
    by (rule Suc.IH)
  ultimately show ?case by simp
qed

lemma createRoom_loop_Some_absent:
  assumes "createRoom_loop gen rs k = Some rid"
  shows "\<not> map_has rs rid \<and> (\<exists>j\<ge>k. rid = gen j)"
proof -
  have step: "\<not> map_has rs rid \<and> (\<exists>j\<ge>k. rid = gen j)"
    if IH: "\<And>gen rs k rid. f gen rs k = Some rid \<Longrightarrow> \<not> map_has rs rid \<and> (\<exists>j\<ge>k. rid = gen j)"
      and eq: "(if map_has rs (gen k) then f gen rs (Suc k) else Some (gen k)) = Some rid"
    for f :: "(nat \<Rightarrow> string) \<Rightarrow> (string, GameRoom) jsmap \<Rightarrow> nat \<Rightarrow> string option"
      and gen rs k rid
  proof (cases "map_has rs (gen k)")
    case True
    with eq have "f gen rs (Suc k) = Some rid" by simp
    then have "\<not> map_has rs rid \<and> (\<exists>j\<ge>Suc k. rid = gen j)" by (rule IH)
    then show ?thesis using Suc_leD by blast
  next
    case False
    with eq show ?thesis by auto
  qed
  show ?thesis
    by (rule createRoom_loop.raw_induct
          [where P = "\<lambda>gen rs k rid. \<not> map_has rs rid \<and> (\<exists>j\<ge>k. rid = gen j)", OF step assms])
qed

lemma createRoom_loop_all_collide:
  assumes "\<forall>j. map_has rs (gen j)"
  shows "createRoom_loop gen rs k = None"
proof (cases "createRoom_loop gen rs k")
  case None
  then show ?thesis .
next
  case (Some rid)
  from createRoom_loop_Some_absent[OF this]
  obtain j where "\<not> map_has rs rid" "rid = gen j" by blast
  with assms show ?thesis by simp
qed

text \<open>
  C8, as amended: the retry loop has no bound. It returns the first code of the
  generator's sequence that is absent from the directory when the sequence has one, and
  it does not return when every code of the sequence collides with a live room.
\<close>

theorem createRoom_loop_result:
  "createRoom_loop gen rs 0 =
     (if \<exists>k. \<not> map_has rs (gen k)
      then Some (gen (LEAST k. \<not> map_has rs (gen k)))
      else None)"
proof (cases "\<exists>k. \<not> map_has rs (gen k)")
  case True
  define n where "n = (LEAST k. \<not> map_has rs (gen k))"
  from True have absent: "\<not> map_has rs (gen n)"
    unfolding n_def by (rule LeastI_ex)
  have "\<forall>j<n. map_has rs (gen (0 + j))"
    unfolding n_def using not_less_Least by auto
  then have "createRoom_loop gen rs 0 = createRoom_loop gen rs (0 + n)"
    by (rule createRoom_loop_skip)
  with absent have "createRoom_loop gen rs 0 = Some (gen n)"
    by (simp add: createRoom_loop_absent)
  with True show ?thesis by (simp add: n_def)
next
  case False
  then have "\<forall>j. map_has rs (gen j)" by simp
  then have "createRoom_loop gen rs 0 = None" by (rule createRoom_loop_all_collide)
  with False show ?thesis by simp
qed

text \<open>
  C8 as stated fails: with room \<open>AB23KQ\<close> live and a generator that returns
  \<open>AB23KQ\<close> at every call, the loop never ends, and neither does the createRoom
  request; nothing aborts it.
\<close>

theorem createRoom_never_returns:
  "createRoom_loop (\<lambda>k. ''AB23KQ'') [(''AB23KQ'', new_GameRoom ''AB23KQ'' ''H'' ''Alice'')] 0 = None \<and>
   on_createRoom \<lparr>rooms = [(''AB23KQ'', new_GameRoom ''AB23KQ'' ''H'' ''Alice'')],
                  socketToPlayer = [(''H'', ''H'')], playerToRoom = [(''H'', ''AB23KQ'')]\<rparr>
     ''F'' ''Bob'' (\<lambda>k. ''AB23KQ'') = None"
proof -
  have "\<forall>j. map_has [(''AB23KQ'', new_GameRoom ''AB23KQ'' ''H'' ''Alice'')] ((\<lambda>k. ''AB23KQ'') j)"
    by (simp add: map_has_def)
  then have "createRoom_loop (\<lambda>k. ''AB23KQ'') [(''AB23KQ'', new_GameRoom ''AB23KQ'' ''H'' ''Alice'')] 0 = None"
    by (rule createRoom_loop_all_collide)
  then show ?thesis by (simp add: on_createRoom_def createRoom_def)
qed

section \<open>The handlers\<close>

lemma truthy_Some: "(truthy v = Some x) = (v = Some x \<and> x \<noteq> [])"
  by (auto simp: truthy_def split: option.splits)

lemma on_createRoom_Some:
  assumes "on_createRoom s sid username gen = Some (s', out)"
  obtains rid where "\<not> map_has (rooms s) rid"
    "s' = s\<lparr>rooms := map_set (rooms s) rid (new_GameRoom rid sid username),
            socketToPlayer := map_set (socketToPlayer s) sid sid,
            playerToRoom := map_set (playerToRoom s) sid rid\<rparr>"
    "out = [SocketJoin sid rid, CallbackRoomId rid]"
proof -
  from assms obtain rid where loop: "createRoom_loop gen (rooms s) 0 = Some rid"
    and s': "s' = s\<lparr>rooms := map_set (rooms s) rid (new_GameRoom rid sid username),
            socketToPlayer := map_set (socketToPlayer s) sid sid,
            playerToRoom := map_set (playerToRoom s) sid rid\<rparr>"
    and out: "out = [SocketJoin sid rid, CallbackRoomId rid]"
    by (auto simp: on_createRoom_def createRoom_def split: option.splits)
  from createRoom_loop_Some_absent[OF loop] have "\<not> map_has (rooms s) rid" by blast
  from that[OF this s' out] show thesis .
qed

lemma on_createRoom_first_absent:
  assumes "\<not> map_has (rooms s) (gen 0)"
  shows "on_createRoom s sid username gen =
     Some (s\<lparr>rooms := map_set (rooms s) (gen 0) (new_GameRoom (gen 0) sid username),
             socketToPlayer := map_set (socketToPlayer s) sid sid,
             playerToRoom := map_set (playerToRoom s) sid (gen 0)\<rparr>,
           [SocketJoin sid (gen 0), CallbackRoomId (gen 0)])"
  using assms by (simp add: on_createRoom_def createRoom_def createRoom_loop_absent)

lemma on_joinRoom_absent:
  "map_get (rooms s) rid = None \<Longrightarrow>
   on_joinRoom s sid rid username = (s, [CallbackJoin False (Some ''Room not found'')])"
  by (simp add: on_joinRoom_def getRoom_def)

lemma on_joinRoom_present:
  "map_get (rooms s) rid = Some room \<Longrightarrow>
   on_joinRoom s sid rid username =
     (s\<lparr>rooms := map_set (rooms s) rid (snd (addPlayer room sid username)),
        socketToPlayer := map_set (socketToPlayer s) sid sid,
        playerToRoom := map_set (playerToRoom s) sid rid\<rparr>,
      [SocketJoin sid rid,
       ToRoomExceptSender rid sid (Ev_playerJoined (mkPlayer sid username)),
       ToSender sid (Ev_gameState (gameState (snd (addPlayer room sid username)))),
       CallbackJoin True None])"
  by (simp add: on_joinRoom_def getRoom_def addPlayer_def Let_def getGameState_def)
lemma truthy_None: "(truthy v = None) = (v = None \<or> v = Some [])"
  by (auto simp: truthy_def split: option.splits)

lemma sender_room_Some:
  "(sender_room s sid = Some (pid, rid, room)) =
     (map_get (socketToPlayer s) sid = Some pid \<and> pid \<noteq> [] \<and>
      map_get (playerToRoom s) pid = Some rid \<and> rid \<noteq> [] \<and>
      map_get (rooms s) rid = Some room)"
  by (auto simp: sender_room_def truthy_Some truthy_None getRoom_def split: option.splits)

lemma on_updateGameState_sender:
  "on_updateGameState s sid state =
     (case sender_room s sid of
        None \<Rightarrow> (s, [])
      | Some (pid, rid, room) \<Rightarrow>
          if hostId room \<noteq> pid then (s, [])
          else (s\<lparr>rooms := map_set (rooms s) rid (updateGameState room state)\<rparr>,
                [ToRoomExceptSender rid sid (Ev_gameState state)]))"
  by (simp add: on_updateGameState_def sender_room_def getHostId_def split: option.splits)

lemma handlePlayerDisconnect_sender:
  "handlePlayerDisconnect s sid =
     (case sender_room s sid of
        None \<Rightarrow> (s, [])
      | Some (pid, rid, room) \<Rightarrow>
          (s\<lparr>rooms := (if map_delete (room_players room) pid = []
                        then map_delete (rooms s) rid
                        else map_set (rooms s) rid (removePlayer room pid)),
             socketToPlayer := map_delete (socketToPlayer s) sid,
             playerToRoom := map_delete (playerToRoom s) pid\<rparr>,
           [ToRoomExceptSender rid sid (Ev_playerLeft pid), SocketLeave sid rid]))"
proof -
  have e: "isEmpty (removePlayer room pid) = (map_delete (room_players room) pid = [])" for room pid
    by (simp add: isEmpty_def removePlayer_def map_size_def)
  show ?thesis
    by (simp add: handlePlayerDisconnect_def sender_room_def Let_def e removeRoom_def
          map_delete_set_same split: option.splits)
qed

lemma forward_to_host_state: "fst (forward_to_host s sid e) = s"
  by (simp add: forward_to_host_def split: option.splits)



subsection \<open>The concrete states are reached\<close>

lemma scenario_step_create:
  "on_createRoom init_server ''H'' ''Alice'' (\<lambda>k. ''AB23KQ'') =
     Some (scenario_created, [SocketJoin ''H'' ''AB23KQ'', CallbackRoomId ''AB23KQ''])"
proof -
  have "\<not> map_has (rooms init_server) ((\<lambda>k::nat. ''AB23KQ'') 0)"
    by (simp add: init_server_def map_has_empty)
  from on_createRoom_first_absent[where gen = "\<lambda>k. ''AB23KQ''", OF this] show ?thesis
    by (simp add: init_server_def scenario_created_def map_eval)
qed

lemma scenario_step_join:
  "on_joinRoom scenario_created ''F'' ''AB23KQ'' ''Bob'' =
     (scenario_joined,
      [SocketJoin ''F'' ''AB23KQ'',
       ToRoomExceptSender ''AB23KQ'' ''F'' (Ev_playerJoined (mkPlayer ''F'' ''Bob'')),
       ToSender ''F'' (Ev_gameState
         (gameState (snd (addPlayer (new_GameRoom ''AB23KQ'' ''H'' ''Alice'') ''F'' ''Bob'')))),
       CallbackJoin True None])"
proof -
  have "map_get (rooms scenario_created) ''AB23KQ'' = Some (new_GameRoom ''AB23KQ'' ''H'' ''Alice'')"
    by (simp add: scenario_created_def map_eval)
  from on_joinRoom_present[OF this] show ?thesis
    by (simp add: scenario_created_def scenario_joined_def map_eval)
qed

lemma scenario_step_second_room:
  "on_createRoom scenario_created ''G'' ''Carol'' (\<lambda>k. ''CD45MN'') =
     Some (scenario_two_rooms, [SocketJoin ''G'' ''CD45MN'', CallbackRoomId ''CD45MN''])"
proof -
  have "\<not> map_has (rooms scenario_created) ((\<lambda>k::nat. ''CD45MN'') 0)"
    by (simp add: scenario_created_def map_has_get map_eval)
  from on_createRoom_first_absent[where gen = "\<lambda>k. ''CD45MN''", OF this] show ?thesis
    by (simp add: scenario_created_def scenario_two_rooms_def map_eval)
qed

lemma scenario_sender_H:
  "sender_room scenario_joined ''H'' =
     Some (''H'', ''AB23KQ'', snd (addPlayer (new_GameRoom ''AB23KQ'' ''H'' ''Alice'') ''F'' ''Bob''))"
  by (simp add: sender_room_Some scenario_joined_def map_eval)


lemma scenario_step_publish:
  "on_updateGameState scenario_joined ''H'' state_A =
     (scenario_published, [ToRoomExceptSender ''AB23KQ'' ''H'' (Ev_gameState state_A)])"
  by (simp add: on_updateGameState_sender scenario_sender_H addPlayer_def new_GameRoom_def Let_def)
     (simp add: scenario_joined_def scenario_published_def map_eval addPlayer_def
        new_GameRoom_def Let_def)



lemma reachable_scenario_created: "reachable scenario_created"
  using reachable_step[OF reachable_init, of "''H''" "CreateRoom ''Alice'' (\<lambda>k. ''AB23KQ'')"]
  by (simp add: scenario_step_create)

lemma reachable_scenario_joined: "reachable scenario_joined"
  using reachable_step[OF reachable_scenario_created, of "''F''" "JoinRoom ''AB23KQ'' ''Bob''"]
  by (simp add: scenario_step_join)

lemma reachable_scenario_two_rooms: "reachable scenario_two_rooms"
  using reachable_step[OF reachable_scenario_created, of "''G''" "CreateRoom ''Carol'' (\<lambda>k. ''CD45MN'')"]
  by (simp add: scenario_step_second_room)


lemma reachable_scenario_published: "reachable scenario_published"
  using reachable_step[OF reachable_scenario_joined, of "''H''" "UpdateGameState state_A"]
  by (simp add: scenario_step_publish)



text \<open>
  C1: for a sender that the registry binds to a live room, after an updateGameState
  request the state stored in that room is the published state when the sender's
  identity is the room's host identity, and the state stored before otherwise; for a
  sender that is not the host nothing at all changes and nothing is sent. The two
  inequalities say that socket identifiers and room codes are not the empty string.
\<close>

theorem publish_only_by_host:
  assumes "map_get (socketToPlayer s) sid = Some pid" "pid \<noteq> []"
    and "map_get (playerToRoom s) pid = Some rid" "rid \<noteq> []"
    and "getRoom (rooms s) rid = Some room"
  shows "map_option gameState (getRoom (rooms (fst (on_updateGameState s sid state))) rid) =
           Some (if pid = hostId room then state else gameState room) \<and>
         (pid \<noteq> hostId room \<longrightarrow> on_updateGameState s sid state = (s, []))"
proof -
  from assms have "sender_room s sid = Some (pid, rid, room)"
    by (simp add: sender_room_Some getRoom_def)
  then show ?thesis
    using assms(5)
    by (auto simp: on_updateGameState_sender getRoom_def map_get_set updateGameState_def)
qed

text \<open>
  The sequence of the specification: the host publishes \<open>state_A\<close> and it is stored;
  the follower then publishes \<open>state_B\<close> and \<open>state_A\<close> stays.
\<close>

theorem publish_only_by_host_witness:
  "on_updateGameState scenario_joined ''H'' state_A =
     (scenario_published, [ToRoomExceptSender ''AB23KQ'' ''H'' (Ev_gameState state_A)]) \<and>
   map_option gameState (getRoom (rooms scenario_published) ''AB23KQ'') = Some state_A \<and>
   on_updateGameState scenario_published ''F'' state_B = (scenario_published, []) \<and>
   map_option gameState (getRoom (rooms (fst (on_updateGameState scenario_published ''F'' state_B))) ''AB23KQ'')
     = Some state_A"
proof -
  have h: "map_get (socketToPlayer scenario_joined) ''H'' = Some ''H''" "''H'' \<noteq> []"
    "map_get (playerToRoom scenario_joined) ''H'' = Some ''AB23KQ''" "''AB23KQ'' \<noteq> []"
    "getRoom (rooms scenario_joined) ''AB23KQ'' =
       Some (snd (addPlayer (new_GameRoom ''AB23KQ'' ''H'' ''Alice'') ''F'' ''Bob''))"
    by (simp_all add: scenario_joined_def getRoom_def map_eval)
  have hh: "hostId (snd (addPlayer (new_GameRoom ''AB23KQ'' ''H'' ''Alice'') ''F'' ''Bob'')) = ''H''"
    by (simp add: addPlayer_def new_GameRoom_def Let_def)
  have f: "map_get (socketToPlayer scenario_published) ''F'' = Some ''F''" "''F'' \<noteq> []"
    "map_get (playerToRoom scenario_published) ''F'' = Some ''AB23KQ''"
    "getRoom (rooms scenario_published) ''AB23KQ'' =
       Some (updateGameState (snd (addPlayer (new_GameRoom ''AB23KQ'' ''H'' ''Alice'') ''F'' ''Bob'')) state_A)"
    by (simp_all add: scenario_published_def getRoom_def map_eval)
  have fh: "hostId (updateGameState (snd (addPlayer (new_GameRoom ''AB23KQ'' ''H'' ''Alice'') ''F'' ''Bob'')) state_A) = ''H''"
    "gameState (updateGameState (snd (addPlayer (new_GameRoom ''AB23KQ'' ''H'' ''Alice'') ''F'' ''Bob'')) state_A) = state_A"
    by (simp_all add: updateGameState_def addPlayer_def new_GameRoom_def Let_def)
  from publish_only_by_host[OF h, of state_A] hh
  have a: "map_option gameState (getRoom (rooms scenario_published) ''AB23KQ'') = Some state_A"
    by (simp add: scenario_step_publish)
  from publish_only_by_host[OF f(1,2,3) h(4) f(4), of state_B] fh f(4)
  have b: "map_option gameState (getRoom (rooms (fst (on_updateGameState scenario_published ''F'' state_B))) ''AB23KQ'')
     = Some state_A" "on_updateGameState scenario_published ''F'' state_B = (scenario_published, [])"
    by simp_all
  from a b scenario_step_publish show ?thesis by simp
qed

text \<open>
  C9, as amended: when the registry maps the sender to the code of a live room whose only
  member is the sender, after the sender's leaveRoom or disconnect the directory has no
  room under the code, and a createRoom request whose generator returns that code first
  ends at once and stores a fresh room, with the new host as its only player, under the
  code.
\<close>

theorem last_member_leaves_room_reclaimed:
  assumes "map_get (socketToPlayer s) sid = Some pid" "pid \<noteq> []"
    and "map_get (playerToRoom s) pid = Some rid" "rid \<noteq> []"
    and "getRoom (rooms s) rid = Some room"
    and "set (map_keys (room_players room)) = {pid}"
    and "gen 0 = rid"
  shows "getRoom (rooms (fst (handlePlayerDisconnect s sid))) rid = None \<and>
         (\<exists>s''. on_createRoom (fst (handlePlayerDisconnect s sid)) sid' username gen =
                  Some (s'', [SocketJoin sid' rid, CallbackRoomId rid]) \<and>
                getRoom (rooms s'') rid = Some (new_GameRoom rid sid' username))"
proof -
  from assms have sender: "sender_room s sid = Some (pid, rid, room)"
    by (simp add: sender_room_Some getRoom_def)
  from assms(6) have empty: "map_delete (room_players room) pid = []"
    by (simp add: map_delete_only_key)
  from sender empty
  have rs: "rooms (fst (handlePlayerDisconnect s sid)) = map_delete (rooms s) rid"
    by (simp add: handlePlayerDisconnect_sender)
  then have gone: "getRoom (rooms (fst (handlePlayerDisconnect s sid))) rid = None"
    by (simp add: getRoom_def map_get_delete)
  then have "\<not> map_has (rooms (fst (handlePlayerDisconnect s sid))) (gen 0)"
    using assms(7) by (simp add: getRoom_def map_has_get)
  from on_createRoom_first_absent
         [where s = "fst (handlePlayerDisconnect s sid)" and gen = gen and sid = sid'
            and username = username, OF this] assms(7) gone show ?thesis
    by (simp add: getRoom_def map_get_set)
qed

text \<open>
  The theorem at the room that \<open>H\<close> created and nobody joined: \<open>H\<close> leaves, the
  server is back in its initial state, and \<open>G\<close> creates a room under the same code.
\<close>

theorem last_member_leaves_room_reclaimed_witness:
  "getRoom (rooms scenario_created) ''AB23KQ'' = Some (new_GameRoom ''AB23KQ'' ''H'' ''Alice'') \<and>
   fst (handlePlayerDisconnect scenario_created ''H'') = init_server \<and>
   getRoom (rooms (fst (handlePlayerDisconnect scenario_created ''H''))) ''AB23KQ'' = None \<and>
   (\<exists>s''. on_createRoom (fst (handlePlayerDisconnect scenario_created ''H'')) ''G'' ''Carol'' (\<lambda>k. ''AB23KQ'') =
            Some (s'', [SocketJoin ''G'' ''AB23KQ'', CallbackRoomId ''AB23KQ'']) \<and>
          getRoom (rooms s'') ''AB23KQ'' = Some (new_GameRoom ''AB23KQ'' ''G'' ''Carol''))"
proof -
  have h: "map_get (socketToPlayer scenario_created) ''H'' = Some ''H''" "''H'' \<noteq> []"
    "map_get (playerToRoom scenario_created) ''H'' = Some ''AB23KQ''" "''AB23KQ'' \<noteq> []"
    "getRoom (rooms scenario_created) ''AB23KQ'' = Some (new_GameRoom ''AB23KQ'' ''H'' ''Alice'')"
    "set (map_keys (room_players (new_GameRoom ''AB23KQ'' ''H'' ''Alice''))) = {''H''}"
    "(\<lambda>k::nat. ''AB23KQ'') 0 = ''AB23KQ''"
    by (simp_all add: scenario_created_def getRoom_def map_eval new_GameRoom_def Let_def map_keys_def)
  have l: "fst (handlePlayerDisconnect scenario_created ''H'') = init_server"
    by (simp add: handlePlayerDisconnect_def truthy_def getRoom_def scenario_created_def
          init_server_def map_eval removePlayer_def new_GameRoom_def Let_def isEmpty_def
          map_size_def removeRoom_def)
  from last_member_leaves_room_reclaimed[OF h, of "''G''" "''Carol''"] h(5) l show ?thesis
    by simp
qed

section \<open>The registry and the rooms\<close>

lemma new_GameRoom_members: "map_has (room_players (new_GameRoom rid hid hostName)) p = (p = hid)"
  by (simp add: new_GameRoom_def Let_def map_has_set map_has_empty)

lemma new_GameRoom_hostId: "hostId (new_GameRoom rid hid hostName) = hid"
  by (simp add: new_GameRoom_def Let_def)

lemma addPlayer_members:
  "map_has (room_players (snd (addPlayer room sid username))) p =
     (p = sid \<or> map_has (room_players room) p)"
  by (simp add: addPlayer_def Let_def map_has_set)

lemma addPlayer_hostId: "hostId (snd (addPlayer room sid username)) = hostId room"
  by (simp add: addPlayer_def Let_def)

lemma removePlayer_members:
  "map_has (room_players (removePlayer room pid)) p = (p \<noteq> pid \<and> map_has (room_players room) p)"
  by (simp add: removePlayer_def map_has_delete)

lemma removePlayer_hostId: "hostId (removePlayer room pid) = hostId room"
  by (simp add: removePlayer_def)


lemma updateGameState_hostId: "hostId (updateGameState room state) = hostId room"
  by (simp add: updateGameState_def)

lemma consistent_create:
  assumes c: "consistent s" and u: "\<not> map_has (playerToRoom s) sid"
    and h: "on_createRoom s sid username gen = Some (s', out)"
  shows "consistent s'"
proof -
  from h obtain rid where fresh: "\<not> map_has (rooms s) rid"
    and s': "s' = s\<lparr>rooms := map_set (rooms s) rid (new_GameRoom rid sid username),
            socketToPlayer := map_set (socketToPlayer s) sid sid,
            playerToRoom := map_set (playerToRoom s) sid rid\<rparr>"
    by (rule on_createRoom_Some)
  from fresh have no_room: "map_get (rooms s) rid = None" by (simp add: map_has_get)
  from u have unbound: "map_get (playerToRoom s) sid = None" by (simp add: map_has_get)
  have old: "(map_get (playerToRoom s) p = Some r) =
      (\<exists>room. map_get (rooms s) r = Some room \<and> map_has (room_players room) p)" for p r
    using c by (simp add: consistent_def)
  have "(map_get (playerToRoom s') p = Some r) =
      (\<exists>room. map_get (rooms s') r = Some room \<and> map_has (room_players room) p)" for p r
  proof (cases "r = rid")
    case True
    have "map_get (playerToRoom s) p \<noteq> Some rid" using old[of p rid] no_room by simp
    then show ?thesis
      using True by (auto simp: s' map_get_set new_GameRoom_members)
  next
    case False
    have "\<not> (\<exists>room. map_get (rooms s) r = Some room \<and> map_has (room_players room) sid)"
      using old[of sid r] unbound by simp
    then show ?thesis
      using False old[of p r] by (auto simp: s' map_get_set)
  qed
  then show ?thesis by (simp add: consistent_def)
qed

lemma consistent_join:
  assumes c: "consistent s" and u: "\<not> map_has (playerToRoom s) sid"
    and h: "on_joinRoom s sid rid username = (s', out)"
  shows "consistent s'"
proof (cases "map_get (rooms s) rid")
  case None
  with h have "s' = s" by (simp add: on_joinRoom_absent)
  with c show ?thesis by simp
next
  case (Some room)
  with h have s': "s' = s\<lparr>rooms := map_set (rooms s) rid (snd (addPlayer room sid username)),
        socketToPlayer := map_set (socketToPlayer s) sid sid,
        playerToRoom := map_set (playerToRoom s) sid rid\<rparr>"
    by (simp add: on_joinRoom_present)
  from u have unbound: "map_get (playerToRoom s) sid = None" by (simp add: map_has_get)
  have old: "(map_get (playerToRoom s) p = Some r) =
      (\<exists>room. map_get (rooms s) r = Some room \<and> map_has (room_players room) p)" for p r
    using c by (simp add: consistent_def)
  have "(map_get (playerToRoom s') p = Some r) =
      (\<exists>room. map_get (rooms s') r = Some room \<and> map_has (room_players room) p)" for p r
  proof (cases "r = rid")
    case True
    then show ?thesis
      using old[of p rid] Some by (auto simp: s' map_get_set addPlayer_members)
  next
    case False
    have "\<not> (\<exists>room. map_get (rooms s) r = Some room \<and> map_has (room_players room) sid)"
      using old[of sid r] unbound by simp
    then show ?thesis
      using False old[of p r] by (auto simp: s' map_get_set)
  qed
  then show ?thesis by (simp add: consistent_def)
qed

lemma consistent_leave:
  assumes c: "consistent s" and h: "handlePlayerDisconnect s sid = (s', out)"
  shows "consistent s'"
proof (cases "sender_room s sid")
  case None
  with h have "s' = s" by (simp add: handlePlayerDisconnect_sender)
  with c show ?thesis by simp
next
  case (Some t)
  then obtain pid rid room where t: "sender_room s sid = Some (pid, rid, room)"
    by (cases t) auto
  then have bound: "map_get (playerToRoom s) pid = Some rid"
    and live: "map_get (rooms s) rid = Some room"
    by (simp_all add: sender_room_Some)
  from h t have s': "s' = s\<lparr>rooms := (if map_delete (room_players room) pid = []
                        then map_delete (rooms s) rid
                        else map_set (rooms s) rid (removePlayer room pid)),
             socketToPlayer := map_delete (socketToPlayer s) sid,
             playerToRoom := map_delete (playerToRoom s) pid\<rparr>"
    by (simp add: handlePlayerDisconnect_sender)
  have old: "(map_get (playerToRoom s) p = Some r) =
      (\<exists>room. map_get (rooms s) r = Some room \<and> map_has (room_players room) p)" for p r
    using c by (simp add: consistent_def)
  have "(map_get (playerToRoom s') p = Some r) =
      (\<exists>room. map_get (rooms s') r = Some room \<and> map_has (room_players room) p)" for p r
  proof (cases "r = rid")
    case True
    show ?thesis
    proof (cases "map_delete (room_players room) pid = []")
      case empty: True
      have "\<not> (p \<noteq> pid \<and> map_has (room_players room) p)"
        using map_delete_empty[OF empty] by blast
      then show ?thesis
        using True empty old[of p rid] live by (auto simp: s' map_get_delete)
    next
      case False
      then show ?thesis
        using True old[of p rid] live
        by (auto simp: s' map_get_delete map_get_set removePlayer_members)
    qed
  next
    case False
    have "\<not> (\<exists>room. map_get (rooms s) r = Some room \<and> map_has (room_players room) pid)"
      using old[of pid r] bound False by simp
    then show ?thesis
      using False old[of p r] by (auto simp: s' map_get_delete map_get_set)
  qed
  then show ?thesis by (simp add: consistent_def)
qed

lemma consistent_init: "consistent init_server"
  by (simp add: consistent_def init_server_def map_get_Nil)

lemma consistent_scenario_created: "consistent scenario_created"
proof -
  have "\<not> map_has (playerToRoom init_server) ''H''"
    by (simp add: init_server_def map_has_empty)
  from consistent_create[OF consistent_init this scenario_step_create] show ?thesis .
qed

lemma consistent_scenario_two_rooms: "consistent scenario_two_rooms"
proof -
  have "\<not> map_has (playerToRoom scenario_created) ''G''"
    by (simp add: scenario_created_def map_has_get map_eval)
  from consistent_create[OF consistent_scenario_created this scenario_step_second_room]
  show ?thesis .
qed

lemma updateGameState_members_iff:
  "map_has (room_players (updateGameState room state)) p =
     (p \<in> player_id ` set (players state) \<or> map_has (room_players room) p)"
  by (simp add: updateGameState_def map_has_get fold_map_set_get)

lemma lists_members_only_keeps:
  "lists_members_only room state \<Longrightarrow>
   map_has (room_players (updateGameState room state)) p = map_has (room_players room) p"
  by (auto simp: updateGameState_members_iff lists_members_only_def list_all_iff)

lemma handle_forward:
  assumes "handle s sid req = Some (s', out)"
    and "req = SubmitVote v t \<or> req = SubmitDescription q d \<or> req = SubmitMrWhiteGuess g"
  shows "s' = s"
  using assms forward_to_host_state[of s sid] by (metis fst_conv handle.simps(4,5,6) option.inject)

lemma consistent_publish:
  assumes c: "consistent s" and d: "disciplined s sid (UpdateGameState state)"
    and h: "on_updateGameState s sid state = (s', out)"
  shows "consistent s'"
proof (cases "sender_room s sid")
  case None
  with h have "s' = s" by (simp add: on_updateGameState_sender)
  with c show ?thesis by simp
next
  case (Some t)
  then obtain pid rid room where t: "sender_room s sid = Some (pid, rid, room)"
    by (cases t) auto
  then have live: "map_get (rooms s) rid = Some room" by (simp add: sender_room_Some)
  show ?thesis
  proof (cases "hostId room = pid")
    case False
    with h t have "s' = s" by (simp add: on_updateGameState_sender)
    with c show ?thesis by simp
  next
    case True
    with d t have only: "lists_members_only room state" by (simp add: disciplined_def)
    from h t True have s': "s' = s\<lparr>rooms := map_set (rooms s) rid (updateGameState room state)\<rparr>"
      by (simp add: on_updateGameState_sender)
    have old: "(map_get (playerToRoom s) p = Some r) =
        (\<exists>room. map_get (rooms s) r = Some room \<and> map_has (room_players room) p)" for p r
      using c by (simp add: consistent_def)
    have "(map_get (playerToRoom s') p = Some r) =
        (\<exists>room. map_get (rooms s') r = Some room \<and> map_has (room_players room) p)" for p r
      using old[of p r] live
      by (auto simp: s' map_get_set lists_members_only_keeps[OF only])
    then show ?thesis by (simp add: consistent_def)
  qed
qed

lemma consistent_step:
  assumes c: "consistent s" and d: "disciplined s sid req"
    and h: "handle s sid req = Some (s', out)"
  shows "consistent s'"
proof (cases req)
  case (CreateRoom username gen)
  with d h c show ?thesis by (auto simp: disciplined_def intro: consistent_create)
next
  case (JoinRoom rid username)
  with d h c show ?thesis by (auto simp: disciplined_def intro: consistent_join)
next
  case (UpdateGameState state)
  with d h c show ?thesis by (auto intro: consistent_publish)
next
  case (SubmitVote v t)
  with h have "s' = s" by (blast intro: handle_forward)
  with c show ?thesis by simp
next
  case (SubmitDescription q dd)
  with h have "s' = s" by (blast intro: handle_forward)
  with c show ?thesis by simp
next
  case (SubmitMrWhiteGuess g)
  with h have "s' = s" by (blast intro: handle_forward)
  with c show ?thesis by simp
next
  case LeaveRoom
  with h c show ?thesis by (auto intro: consistent_leave)
next
  case Disconnect
  with h c show ?thesis by (auto intro: consistent_leave)
qed

lemma reachable_disciplined_consistent: "reachable_disciplined s \<Longrightarrow> consistent s"
proof (induction rule: reachable_disciplined.induct)
  case disciplined_init
  show ?case by (rule consistent_init)
next
  case (disciplined_step s sid req s' out)
  then show ?case by (blast intro: consistent_step)
qed

lemma registry_in_rooms_init: "registry_in_rooms init_server"
  by (simp add: registry_in_rooms_def init_server_def map_get_Nil)

lemma registry_in_rooms_create:
  assumes c: "registry_in_rooms s" and h: "on_createRoom s sid username gen = Some (s', out)"
  shows "registry_in_rooms s'"
proof -
  from h obtain rid where fresh: "\<not> map_has (rooms s) rid"
    and s': "s' = s\<lparr>rooms := map_set (rooms s) rid (new_GameRoom rid sid username),
            socketToPlayer := map_set (socketToPlayer s) sid sid,
            playerToRoom := map_set (playerToRoom s) sid rid\<rparr>"
    by (rule on_createRoom_Some)
  from fresh have no_room: "map_get (rooms s) rid = None" by (simp add: map_has_get)
  have "\<exists>room. map_get (rooms s') r = Some room \<and> map_has (room_players room) p"
    if b: "map_get (playerToRoom s') p = Some r" for p r
  proof (cases "p = sid")
    case True
    with b have "r = rid" by (simp add: s' map_get_set)
    with True show ?thesis by (simp add: s' map_get_set new_GameRoom_members)
  next
    case False
    with b have "map_get (playerToRoom s) p = Some r" by (simp add: s' map_get_set)
    with c obtain room where "map_get (rooms s) r = Some room" "map_has (room_players room) p"
      unfolding registry_in_rooms_def by blast
    with no_room show ?thesis by (auto simp: s' map_get_set)
  qed
  then show ?thesis by (simp add: registry_in_rooms_def)
qed

lemma registry_in_rooms_join:
  assumes c: "registry_in_rooms s" and h: "on_joinRoom s sid rid username = (s', out)"
  shows "registry_in_rooms s'"
proof (cases "map_get (rooms s) rid")
  case None
  with h have "s' = s" by (simp add: on_joinRoom_absent)
  with c show ?thesis by simp
next
  case (Some room0)
  with h have s': "s' = s\<lparr>rooms := map_set (rooms s) rid (snd (addPlayer room0 sid username)),
        socketToPlayer := map_set (socketToPlayer s) sid sid,
        playerToRoom := map_set (playerToRoom s) sid rid\<rparr>"
    by (simp add: on_joinRoom_present)
  have "\<exists>room. map_get (rooms s') r = Some room \<and> map_has (room_players room) p"
    if b: "map_get (playerToRoom s') p = Some r" for p r
  proof (cases "p = sid")
    case True
    with b have "r = rid" by (simp add: s' map_get_set)
    with True show ?thesis by (simp add: s' map_get_set addPlayer_members)
  next
    case False
    with b have "map_get (playerToRoom s) p = Some r" by (simp add: s' map_get_set)
    with c obtain room where "map_get (rooms s) r = Some room" "map_has (room_players room) p"
      unfolding registry_in_rooms_def by blast
    with Some show ?thesis by (auto simp: s' map_get_set addPlayer_members)
  qed
  then show ?thesis by (simp add: registry_in_rooms_def)
qed

lemma registry_in_rooms_publish:
  assumes c: "registry_in_rooms s" and h: "on_updateGameState s sid state = (s', out)"
  shows "registry_in_rooms s'"
proof (cases "sender_room s sid")
  case None
  with h have "s' = s" by (simp add: on_updateGameState_sender)
  with c show ?thesis by simp
next
  case (Some t)
  then obtain pid rid room0 where t: "sender_room s sid = Some (pid, rid, room0)"
    by (cases t) auto
  then have live: "map_get (rooms s) rid = Some room0" by (simp add: sender_room_Some)
  show ?thesis
  proof (cases "hostId room0 = pid")
    case False
    with h t have "s' = s" by (simp add: on_updateGameState_sender)
    with c show ?thesis by simp
  next
    case True
    from h t True have s': "s' = s\<lparr>rooms := map_set (rooms s) rid (updateGameState room0 state)\<rparr>"
      by (simp add: on_updateGameState_sender)
    have "\<exists>room. map_get (rooms s') r = Some room \<and> map_has (room_players room) p"
      if b: "map_get (playerToRoom s') p = Some r" for p r
    proof -
      from b have "map_get (playerToRoom s) p = Some r" by (simp add: s')
      with c obtain room where "map_get (rooms s) r = Some room" "map_has (room_players room) p"
        unfolding registry_in_rooms_def by blast
      with live show ?thesis by (auto simp: s' map_get_set updateGameState_members_iff)
    qed
    then show ?thesis by (simp add: registry_in_rooms_def)
  qed
qed

lemma registry_in_rooms_leave:
  assumes c: "registry_in_rooms s" and h: "handlePlayerDisconnect s sid = (s', out)"
  shows "registry_in_rooms s'"
proof (cases "sender_room s sid")
  case None
  with h have "s' = s" by (simp add: handlePlayerDisconnect_sender)
  with c show ?thesis by simp
next
  case (Some t)
  then obtain pid rid room0 where t: "sender_room s sid = Some (pid, rid, room0)"
    by (cases t) auto
  then have live: "map_get (rooms s) rid = Some room0" by (simp add: sender_room_Some)
  from h t have reg: "playerToRoom s' = map_delete (playerToRoom s) pid"
    by (auto simp: handlePlayerDisconnect_sender)
  from h t have rs: "rooms s' = (if map_delete (room_players room0) pid = []
                        then map_delete (rooms s) rid
                        else map_set (rooms s) rid (removePlayer room0 pid))"
    by (auto simp: handlePlayerDisconnect_sender)
  have "\<exists>room. map_get (rooms s') r = Some room \<and> map_has (room_players room) p"
    if b: "map_get (playerToRoom s') p = Some r" for p r
  proof -
    from b have ne: "p \<noteq> pid"
      by (cases "p = pid") (simp_all add: reg map_get_delete)
    with b have "map_get (playerToRoom s) p = Some r"
      by (simp add: reg map_get_delete)
    with c obtain room where room: "map_get (rooms s) r = Some room" "map_has (room_players room) p"
      unfolding registry_in_rooms_def by blast
    show ?thesis
    proof (cases "r = rid")
      case True
      with room live have m: "map_has (room_players room0) p" by simp
      have "map_delete (room_players room0) pid \<noteq> []"
      proof
        assume "map_delete (room_players room0) pid = []"
        from map_delete_empty[OF this m] ne show False by simp
      qed
      with True ne m show ?thesis
        by (simp add: rs map_get_set removePlayer_members)
    next
      case False
      with room show ?thesis by (simp add: rs map_get_set map_get_delete)
    qed
  qed
  then show ?thesis by (simp add: registry_in_rooms_def)
qed

lemma registry_in_rooms_step:
  assumes c: "registry_in_rooms s" and h: "handle s sid req = Some (s', out)"
  shows "registry_in_rooms s'"
proof (cases req)
  case (CreateRoom username gen)
  with h c show ?thesis by (auto intro: registry_in_rooms_create)
next
  case (JoinRoom rid username)
  with h c show ?thesis by (auto intro: registry_in_rooms_join)
next
  case (UpdateGameState state)
  with h c show ?thesis by (auto intro: registry_in_rooms_publish)
next
  case (SubmitVote v t)
  with h have "s' = s" by (blast intro: handle_forward)
  with c show ?thesis by simp
next
  case (SubmitDescription q dd)
  with h have "s' = s" by (blast intro: handle_forward)
  with c show ?thesis by simp
next
  case (SubmitMrWhiteGuess g)
  with h have "s' = s" by (blast intro: handle_forward)
  with c show ?thesis by simp
next
  case LeaveRoom
  with h c show ?thesis by (auto intro: registry_in_rooms_leave)
next
  case Disconnect
  with h c show ?thesis by (auto intro: registry_in_rooms_leave)
qed

lemma reachable_registry_in_rooms: "reachable s \<Longrightarrow> registry_in_rooms s"
proof (induction rule: reachable.induct)
  case reachable_init
  show ?case by (rule registry_in_rooms_init)
next
  case (reachable_step s sid req s' out)
  then show ?case by (blast intro: registry_in_rooms_step)
qed

lemma rebinding_join_keeps_old_membership:
  assumes b: "map_get (playerToRoom s) sid = Some rid"
    and old: "map_get (rooms s) rid = Some room" "map_has (room_players room) sid"
    and other: "rid' \<noteq> rid" "map_get (rooms s) rid' = Some room'"
  shows "map_get (playerToRoom (fst (on_joinRoom s sid rid' username))) sid = Some rid' \<and>
         map_get (rooms (fst (on_joinRoom s sid rid' username))) rid = Some room \<and>
         \<not> consistent (fst (on_joinRoom s sid rid' username))"
proof -
  let ?s = "fst (on_joinRoom s sid rid' username)"
  have bound: "map_get (playerToRoom ?s) sid = Some rid'"
    by (simp add: on_joinRoom_present[OF other(2)] map_get_set)
  have kept: "map_get (rooms ?s) rid = Some room"
    using other(1) old(1) by (simp add: on_joinRoom_present[OF other(2)] map_get_set)
  have "\<not> consistent ?s"
  proof
    assume "consistent ?s"
    then have "(map_get (playerToRoom ?s) sid = Some rid) =
        (\<exists>r. map_get (rooms ?s) rid = Some r \<and> map_has (room_players r) sid)"
      by (simp add: consistent_def)
    with bound kept old(2) other(1) show False by simp
  qed
  with bound kept show ?thesis by simp
qed

lemma rebinding_create_keeps_old_membership:
  assumes b: "map_get (playerToRoom s) sid = Some rid"
    and old: "map_get (rooms s) rid = Some room" "map_has (room_players room) sid"
    and h: "on_createRoom s sid username gen = Some (s', out)"
  shows "map_get (playerToRoom s') sid \<noteq> Some rid \<and>
         map_get (rooms s') rid = Some room \<and> \<not> consistent s'"
proof -
  from h obtain r where fresh: "\<not> map_has (rooms s) r"
    and s': "s' = s\<lparr>rooms := map_set (rooms s) r (new_GameRoom r sid username),
            socketToPlayer := map_set (socketToPlayer s) sid sid,
            playerToRoom := map_set (playerToRoom s) sid r\<rparr>"
    by (rule on_createRoom_Some)
  from fresh old(1) have ne: "r \<noteq> rid" by (auto simp: map_has_get)
  then have bound: "map_get (playerToRoom s') sid \<noteq> Some rid"
    by (simp add: s' map_get_set)
  from ne old(1) have kept: "map_get (rooms s') rid = Some room"
    by (simp add: s' map_get_set)
  have "\<not> consistent s'"
  proof
    assume "consistent s'"
    then have "(map_get (playerToRoom s') sid = Some rid) =
        (\<exists>r. map_get (rooms s') rid = Some r \<and> map_has (room_players r) sid)"
      by (simp add: consistent_def)
    with bound kept old(2) show False by simp
  qed
  with bound kept show ?thesis by simp
qed

text \<open>
  C2, as amended, in four parts. In every reachable state, whatever the requests were, an
  identity that the registry maps to a room code is a member of the live room of that
  code. In every state reached by requests that keep to the discipline (createRoom and
  joinRoom only from connections the registry maps to no room, accepted publishes that
  list only members) the converse holds too, so registry and rooms agree in both
  directions. A joinRoom of another live room by a connection that the registry maps to
  a room it is a member of moves the registry entry to the new code and leaves the old
  room as it was, the connection still among its members; a createRoom by such a
  connection does the same; in both cases registry and rooms no longer agree.
\<close>

theorem registry_and_membership:
  "(reachable s \<longrightarrow> registry_in_rooms s) \<and>
   (reachable_disciplined s \<longrightarrow> consistent s) \<and>
   (map_get (playerToRoom t) sid = Some rid \<and> map_get (rooms t) rid = Some room \<and>
    map_has (room_players room) sid \<and> rid' \<noteq> rid \<and> map_get (rooms t) rid' = Some room' \<longrightarrow>
      map_get (playerToRoom (fst (on_joinRoom t sid rid' username))) sid = Some rid' \<and>
      map_get (rooms (fst (on_joinRoom t sid rid' username))) rid = Some room \<and>
      \<not> consistent (fst (on_joinRoom t sid rid' username))) \<and>
   (map_get (playerToRoom t) sid = Some rid \<and> map_get (rooms t) rid = Some room \<and>
    map_has (room_players room) sid \<and> on_createRoom t sid username gen = Some (t', out) \<longrightarrow>
      map_get (playerToRoom t') sid \<noteq> Some rid \<and>
      map_get (rooms t') rid = Some room \<and> \<not> consistent t')"
proof (intro conjI impI)
  assume "reachable s"
  then show "registry_in_rooms s" by (rule reachable_registry_in_rooms)
next
  assume "reachable_disciplined s"
  then show "consistent s" by (rule reachable_disciplined_consistent)
next
  assume a: "map_get (playerToRoom t) sid = Some rid \<and> map_get (rooms t) rid = Some room \<and>
    map_has (room_players room) sid \<and> rid' \<noteq> rid \<and> map_get (rooms t) rid' = Some room'"
  then have a1: "map_get (playerToRoom t) sid = Some rid" and a2: "map_get (rooms t) rid = Some room"
    and a3: "map_has (room_players room) sid" and a4: "rid' \<noteq> rid"
    and a5: "map_get (rooms t) rid' = Some room'"
    by simp_all
  note j = rebinding_join_keeps_old_membership[OF a1 a2 a3 a4 a5, of username]
  from j show "map_get (playerToRoom (fst (on_joinRoom t sid rid' username))) sid = Some rid'" by simp
  from j show "map_get (rooms (fst (on_joinRoom t sid rid' username))) rid = Some room" by simp
  from j show "\<not> consistent (fst (on_joinRoom t sid rid' username))" by simp
next
  assume a: "map_get (playerToRoom t) sid = Some rid \<and> map_get (rooms t) rid = Some room \<and>
    map_has (room_players room) sid \<and> on_createRoom t sid username gen = Some (t', out)"
  then have a1: "map_get (playerToRoom t) sid = Some rid" and a2: "map_get (rooms t) rid = Some room"
    and a3: "map_has (room_players room) sid" and a4: "on_createRoom t sid username gen = Some (t', out)"
    by simp_all
  note c = rebinding_create_keeps_old_membership[OF a1 a2 a3 a4]
  from c show "map_get (playerToRoom t') sid \<noteq> Some rid" by simp
  from c show "map_get (rooms t') rid = Some room" by simp
  from c show "\<not> consistent t'" by simp
qed

subsection \<open>More concrete states\<close>

lemma scenario_sender_created:
  "sender_room scenario_created ''H'' =
     Some (''H'', ''AB23KQ'', new_GameRoom ''AB23KQ'' ''H'' ''Alice'')"
  by (simp add: sender_room_Some scenario_created_def map_eval)

lemma scenario_step_ghost:
  "on_updateGameState scenario_created ''H'' state_A =
     (scenario_ghost, [ToRoomExceptSender ''AB23KQ'' ''H'' (Ev_gameState state_A)])"
  by (simp add: on_updateGameState_sender scenario_sender_created new_GameRoom_hostId)
     (simp add: scenario_created_def scenario_ghost_def map_eval)

lemma scenario_step_rebind:
  "on_createRoom scenario_created ''H'' ''Alice'' (\<lambda>k. ''CD45MN'') =
     Some (scenario_rebound, [SocketJoin ''H'' ''CD45MN'', CallbackRoomId ''CD45MN''])"
proof -
  have "\<not> map_has (rooms scenario_created) ((\<lambda>k::nat. ''CD45MN'') 0)"
    by (simp add: scenario_created_def map_has_get map_eval)
  from on_createRoom_first_absent[where gen = "\<lambda>k. ''CD45MN''", OF this] show ?thesis
    by (simp add: scenario_created_def scenario_rebound_def map_eval)
qed

lemma scenario_sender_rebound:
  "sender_room scenario_rebound ''H'' =
     Some (''H'', ''CD45MN'', new_GameRoom ''CD45MN'' ''H'' ''Alice'')"
  by (simp add: sender_room_Some scenario_rebound_def map_eval)

lemma scenario_step_rebound_leaves:
  "handlePlayerDisconnect scenario_rebound ''H'' =
     (scenario_orphaned,
      [ToRoomExceptSender ''CD45MN'' ''H'' (Ev_playerLeft ''H''), SocketLeave ''H'' ''CD45MN''])"
  by (simp add: handlePlayerDisconnect_sender scenario_sender_rebound)
     (simp add: scenario_rebound_def scenario_orphaned_def map_eval new_GameRoom_def Let_def)

lemma scenario_step_orphaned_leaves:
  "handlePlayerDisconnect scenario_orphaned ''H'' = (scenario_orphaned, [])"
  by (simp add: handlePlayerDisconnect_def truthy_def scenario_orphaned_def map_eval)

lemma scenario_step_skip_code:
  "on_createRoom scenario_orphaned ''G'' ''Carol'' skip_first_code =
     Some (scenario_orphaned
             \<lparr>rooms := [(''AB23KQ'', new_GameRoom ''AB23KQ'' ''H'' ''Alice''),
                        (''EF67PR'', new_GameRoom ''EF67PR'' ''G'' ''Carol'')],
              socketToPlayer := [(''G'', ''G'')],
              playerToRoom := [(''G'', ''EF67PR'')]\<rparr>,
           [SocketJoin ''G'' ''EF67PR'', CallbackRoomId ''EF67PR''])"
proof -
  have "map_has (rooms scenario_orphaned) (skip_first_code 0)"
    by (simp add: scenario_orphaned_def skip_first_code_def map_has_get map_eval)
  then have "createRoom_loop skip_first_code (rooms scenario_orphaned) 0 =
      createRoom_loop skip_first_code (rooms scenario_orphaned) (Suc 0)"
    by (rule createRoom_loop_collide)
  moreover have "\<not> map_has (rooms scenario_orphaned) (skip_first_code (Suc 0))"
    by (simp add: scenario_orphaned_def skip_first_code_def map_has_get map_eval)
  then have "createRoom_loop skip_first_code (rooms scenario_orphaned) (Suc 0) =
      Some (skip_first_code (Suc 0))"
    by (rule createRoom_loop_absent)
  ultimately have "createRoom_loop skip_first_code (rooms scenario_orphaned) 0 = Some ''EF67PR''"
    by (simp add: skip_first_code_def)
  then show ?thesis
    by (simp add: on_createRoom_def createRoom_def scenario_orphaned_def map_eval)
qed

lemma reachable_scenario_ghost: "reachable scenario_ghost"
  using reachable_step[OF reachable_scenario_created, of "''H''" "UpdateGameState state_A"]
  by (simp add: scenario_step_ghost)

lemma reachable_scenario_rebound: "reachable scenario_rebound"
  using reachable_step[OF reachable_scenario_created, of "''H''" "CreateRoom ''Alice'' (\<lambda>k. ''CD45MN'')"]
  by (simp add: scenario_step_rebind)

lemma reachable_after_join:
  "reachable s \<Longrightarrow> reachable (fst (on_joinRoom s sid rid username))"
  using reachable_step[of s sid "JoinRoom rid username"
      "fst (on_joinRoom s sid rid username)" "snd (on_joinRoom s sid rid username)"]
  by simp

text \<open>
  The theorem at four places: the run in which \<open>H\<close> creates a room, \<open>F\<close> joins
  and \<open>H\<close> publishes a state listing the two of them; the state after \<open>H\<close>
  published a state listing \<open>F\<close> before \<open>F\<close> joined; \<open>H\<close> joining the room of
  \<open>G\<close>; and \<open>H\<close> creating a second room.
\<close>

theorem registry_and_membership_witness:
  "reachable_disciplined scenario_published \<and> consistent scenario_published \<and>
   reachable scenario_ghost \<and> registry_in_rooms scenario_ghost \<and>
   map_get (playerToRoom scenario_two_rooms) ''H'' = Some ''AB23KQ'' \<and>
   map_get (playerToRoom (fst (on_joinRoom scenario_two_rooms ''H'' ''CD45MN'' ''Alice''))) ''H''
     = Some ''CD45MN'' \<and>
   map_get (rooms (fst (on_joinRoom scenario_two_rooms ''H'' ''CD45MN'' ''Alice''))) ''AB23KQ''
     = Some (new_GameRoom ''AB23KQ'' ''H'' ''Alice'') \<and>
   \<not> consistent (fst (on_joinRoom scenario_two_rooms ''H'' ''CD45MN'' ''Alice'')) \<and>
   map_get (rooms scenario_rebound) ''AB23KQ'' = Some (new_GameRoom ''AB23KQ'' ''H'' ''Alice'') \<and>
   \<not> consistent scenario_rebound"
proof -
  have d1: "disciplined init_server ''H'' (CreateRoom ''Alice'' (\<lambda>k. ''AB23KQ''))"
    by (simp add: disciplined_def init_server_def map_has_empty)
  have d2: "disciplined scenario_created ''F'' (JoinRoom ''AB23KQ'' ''Bob'')"
    by (simp add: disciplined_def scenario_created_def map_has_get map_eval)
  have d3: "disciplined scenario_joined ''H'' (UpdateGameState state_A)"
    by (simp add: disciplined_def scenario_sender_H lists_members_only_def state_A_def
          addPlayer_members new_GameRoom_members mkPlayer_def)
  have h1: "handle init_server ''H'' (CreateRoom ''Alice'' (\<lambda>k. ''AB23KQ'')) =
      Some (scenario_created, [SocketJoin ''H'' ''AB23KQ'', CallbackRoomId ''AB23KQ''])"
    by (simp add: scenario_step_create)
  have h2: "handle scenario_created ''F'' (JoinRoom ''AB23KQ'' ''Bob'') =
      Some (on_joinRoom scenario_created ''F'' ''AB23KQ'' ''Bob'')"
    by simp
  have h3: "handle scenario_joined ''H'' (UpdateGameState state_A) =
      Some (on_updateGameState scenario_joined ''H'' state_A)"
    by simp
  have r1: "reachable_disciplined scenario_created"
    by (rule disciplined_step[OF disciplined_init d1 h1])
  have r2: "reachable_disciplined scenario_joined"
    by (rule disciplined_step[OF r1 d2 h2[unfolded scenario_step_join]])
  have r3: "reachable_disciplined scenario_published"
    by (rule disciplined_step[OF r2 d3 h3[unfolded scenario_step_publish]])
  have b: "map_get (playerToRoom scenario_two_rooms) ''H'' = Some ''AB23KQ''"
    and o: "map_get (rooms scenario_two_rooms) ''AB23KQ'' = Some (new_GameRoom ''AB23KQ'' ''H'' ''Alice'')"
    and m: "map_has (room_players (new_GameRoom ''AB23KQ'' ''H'' ''Alice'')) ''H''"
    and n: "''CD45MN'' \<noteq> ''AB23KQ''"
    and l: "map_get (rooms scenario_two_rooms) ''CD45MN'' = Some (new_GameRoom ''CD45MN'' ''G'' ''Carol'')"
    by (simp_all add: scenario_two_rooms_def map_eval new_GameRoom_members)
  have b': "map_get (playerToRoom scenario_created) ''H'' = Some ''AB23KQ''"
    and o': "map_get (rooms scenario_created) ''AB23KQ'' = Some (new_GameRoom ''AB23KQ'' ''H'' ''Alice'')"
    by (simp_all add: scenario_created_def map_eval)
  note t1 = registry_and_membership[of scenario_published scenario_two_rooms "''H''" "''AB23KQ''"
      "new_GameRoom ''AB23KQ'' ''H'' ''Alice''" "''CD45MN''" "new_GameRoom ''CD45MN'' ''G'' ''Carol''"
      "''Alice''"]
  note t2 = registry_and_membership[of scenario_ghost scenario_created "''H''" "''AB23KQ''"
      "new_GameRoom ''AB23KQ'' ''H'' ''Alice''" _ _ "''Alice''" "\<lambda>k. ''CD45MN''" scenario_rebound
      "[SocketJoin ''H'' ''CD45MN'', CallbackRoomId ''CD45MN'']"]
  from t1 r3 have c1: "consistent scenario_published" by blast
  from t2 reachable_scenario_ghost have c2: "registry_in_rooms scenario_ghost" by blast
  from t1 b o m n l
  have c3: "map_get (playerToRoom (fst (on_joinRoom scenario_two_rooms ''H'' ''CD45MN'' ''Alice''))) ''H''
       = Some ''CD45MN'' \<and>
     map_get (rooms (fst (on_joinRoom scenario_two_rooms ''H'' ''CD45MN'' ''Alice''))) ''AB23KQ''
       = Some (new_GameRoom ''AB23KQ'' ''H'' ''Alice'') \<and>
     \<not> consistent (fst (on_joinRoom scenario_two_rooms ''H'' ''CD45MN'' ''Alice''))"
    by blast
  from t2 b' o' m scenario_step_rebind
  have c4: "map_get (rooms scenario_rebound) ''AB23KQ'' = Some (new_GameRoom ''AB23KQ'' ''H'' ''Alice'') \<and>
     \<not> consistent scenario_rebound"
    by blast
  from r3 c1 reachable_scenario_ghost c2 b c3 c4 show ?thesis by blast
qed

text \<open>
  C2 as stated fails in two ways. With \<open>H\<close> in its own room \<open>AB23KQ\<close> and \<open>G\<close>
  in \<open>CD45MN\<close>, registry and rooms agree; after \<open>H\<close> joins \<open>CD45MN\<close> the
  registry maps \<open>H\<close> to \<open>CD45MN\<close> while \<open>H\<close> is still a member of \<open>AB23KQ\<close>.
  And after the host published a state that lists \<open>F\<close>, the room has the member
  \<open>F\<close> that the registry does not know, also after the next joinRoom, which comes
  from a connection without a room.
\<close>

theorem rejoin_breaks_registry_consistency:
  "reachable scenario_two_rooms \<and> consistent scenario_two_rooms \<and>
   map_get (playerToRoom scenario_two_rooms) ''H'' = Some ''AB23KQ'' \<and>
   \<not> consistent (fst (on_joinRoom scenario_two_rooms ''H'' ''CD45MN'' ''Alice'')) \<and>
   reachable scenario_ghost \<and> \<not> map_has (playerToRoom scenario_ghost) ''G'' \<and>
   reachable (fst (on_joinRoom scenario_ghost ''G'' ''AB23KQ'' ''Carol'')) \<and>
   \<not> consistent (fst (on_joinRoom scenario_ghost ''G'' ''AB23KQ'' ''Carol''))"
proof -
  let ?s = "fst (on_joinRoom scenario_two_rooms ''H'' ''CD45MN'' ''Alice'')"
  have live: "map_get (rooms scenario_two_rooms) ''CD45MN'' = Some (new_GameRoom ''CD45MN'' ''G'' ''Carol'')"
    by (simp add: scenario_two_rooms_def map_eval)
  have bound: "map_get (playerToRoom ?s) ''H'' = Some ''CD45MN''"
    by (simp add: on_joinRoom_present[OF live] map_get_set)
  have old: "map_get (rooms ?s) ''AB23KQ'' = Some (new_GameRoom ''AB23KQ'' ''H'' ''Alice'')"
    by (simp add: on_joinRoom_present[OF live] map_get_set)
       (simp add: scenario_two_rooms_def map_eval)
  have first: "\<not> consistent ?s"
  proof
    assume "consistent ?s"
    then have "(map_get (playerToRoom ?s) ''H'' = Some ''AB23KQ'') =
        (\<exists>room. map_get (rooms ?s) ''AB23KQ'' = Some room \<and> map_has (room_players room) ''H'')"
      by (simp add: consistent_def)
    with bound old show False by (simp add: new_GameRoom_members)
  qed
  have before: "map_get (playerToRoom scenario_two_rooms) ''H'' = Some ''AB23KQ''"
    by (simp add: scenario_two_rooms_def map_eval)
  let ?g = "fst (on_joinRoom scenario_ghost ''G'' ''AB23KQ'' ''Carol'')"
  let ?room = "updateGameState (new_GameRoom ''AB23KQ'' ''H'' ''Alice'') state_A"
  have glive: "map_get (rooms scenario_ghost) ''AB23KQ'' = Some ?room"
    by (simp add: scenario_ghost_def map_eval)
  have unbound: "\<not> map_has (playerToRoom scenario_ghost) ''G''"
    by (simp add: scenario_ghost_def map_has_get map_eval)
  have freg: "map_get (playerToRoom ?g) ''F'' = None"
    by (simp add: on_joinRoom_present[OF glive] map_get_set)
       (simp add: scenario_ghost_def map_eval)
  have fmem: "map_get (rooms ?g) ''AB23KQ'' = Some (snd (addPlayer ?room ''G'' ''Carol''))"
    by (simp add: on_joinRoom_present[OF glive] map_get_set)
  have fin: "map_has (room_players (snd (addPlayer ?room ''G'' ''Carol''))) ''F''"
    by (simp add: addPlayer_members updateGameState_members_iff state_A_def mkPlayer_def)
  have second: "\<not> consistent ?g"
  proof
    assume "consistent ?g"
    then have "(map_get (playerToRoom ?g) ''F'' = Some ''AB23KQ'') =
        (\<exists>room. map_get (rooms ?g) ''AB23KQ'' = Some room \<and> map_has (room_players room) ''F'')"
      by (simp add: consistent_def)
    with freg fmem fin show False by simp
  qed
  from first second before unbound reachable_scenario_two_rooms consistent_scenario_two_rooms
    reachable_scenario_ghost reachable_after_join[OF reachable_scenario_ghost]
  show ?thesis by blast
qed

subsection \<open>A room whose only member has moved on\<close>

text \<open>
  A leave or disconnect of a connection that the registry does not map to a room code
  leaves the directory entry of that code as it is.
\<close>

lemma handlePlayerDisconnect_other_rooms:
  assumes "\<forall>pid. map_get (socketToPlayer s) sid = Some pid \<longrightarrow>
             map_get (playerToRoom s) pid \<noteq> Some rid"
  shows "getRoom (rooms (fst (handlePlayerDisconnect s sid))) rid = getRoom (rooms s) rid"
proof (cases "sender_room s sid")
  case None
  then show ?thesis by (simp add: handlePlayerDisconnect_sender)
next
  case (Some t)
  then obtain pid r room where t: "sender_room s sid = Some (pid, r, room)"
    by (cases t) auto
  with assms have "r \<noteq> rid" by (auto simp: sender_room_Some)
  with t show ?thesis
    by (simp add: handlePlayerDisconnect_sender getRoom_def map_get_set map_get_delete)
qed

text \<open>
  C9 as stated fails when the registry entry of the last member has been overwritten:
  \<open>H\<close> creates \<open>AB23KQ\<close>, then \<open>CD45MN\<close>, and disconnects. The disconnect
  removes \<open>H\<close> from \<open>CD45MN\<close> and that room from the directory; \<open>AB23KQ\<close>,
  whose only member was \<open>H\<close>, stays, a second disconnect changes nothing, and a
  createRoom whose generator returns \<open>AB23KQ\<close> first passes over it.
\<close>

theorem rebound_sole_member_leaves_room_stays:
  "reachable scenario_rebound \<and>
   getRoom (rooms scenario_rebound) ''AB23KQ'' = Some (new_GameRoom ''AB23KQ'' ''H'' ''Alice'') \<and>
   map_keys (room_players (new_GameRoom ''AB23KQ'' ''H'' ''Alice'')) = [''H''] \<and>
   handlePlayerDisconnect scenario_rebound ''H'' =
     (scenario_orphaned,
      [ToRoomExceptSender ''CD45MN'' ''H'' (Ev_playerLeft ''H''), SocketLeave ''H'' ''CD45MN'']) \<and>
   getRoom (rooms scenario_orphaned) ''AB23KQ'' = Some (new_GameRoom ''AB23KQ'' ''H'' ''Alice'') \<and>
   handlePlayerDisconnect scenario_orphaned ''H'' = (scenario_orphaned, []) \<and>
   map_option snd (on_createRoom scenario_orphaned ''G'' ''Carol'' skip_first_code) =
     Some [SocketJoin ''G'' ''EF67PR'', CallbackRoomId ''EF67PR'']"
proof -
  have "getRoom (rooms scenario_rebound) ''AB23KQ'' = Some (new_GameRoom ''AB23KQ'' ''H'' ''Alice'')"
    by (simp add: getRoom_def scenario_rebound_def map_eval)
  moreover have "map_keys (room_players (new_GameRoom ''AB23KQ'' ''H'' ''Alice'')) = [''H'']"
    by (simp add: new_GameRoom_def Let_def map_eval map_keys_def)
  moreover have "getRoom (rooms scenario_orphaned) ''AB23KQ'' = Some (new_GameRoom ''AB23KQ'' ''H'' ''Alice'')"
    by (simp add: getRoom_def scenario_orphaned_def map_eval)
  moreover have "map_option snd (on_createRoom scenario_orphaned ''G'' ''Carol'' skip_first_code) =
     Some [SocketJoin ''G'' ''EF67PR'', CallbackRoomId ''EF67PR'']"
    by (simp add: scenario_step_skip_code)
  ultimately show ?thesis
    using reachable_scenario_rebound scenario_step_rebound_leaves scenario_step_orphaned_leaves
    by simp
qed

section \<open>The host of a room\<close>

text \<open>No request changes the host identity of a room that it keeps.\<close>

lemma handle_hostId_fixed:
  assumes "handle s sid req = Some (s', out)"
    and "map_get (rooms s) rid = Some room" "map_get (rooms s') rid = Some room'"
  shows "hostId room' = hostId room"
proof (cases req)
  case (CreateRoom username gen)
  with assms(1) have "on_createRoom s sid username gen = Some (s', out)" by simp
  then obtain r where "\<not> map_has (rooms s) r"
    and "s' = s\<lparr>rooms := map_set (rooms s) r (new_GameRoom r sid username),
            socketToPlayer := map_set (socketToPlayer s) sid sid,
            playerToRoom := map_set (playerToRoom s) sid r\<rparr>"
    by (rule on_createRoom_Some)
  with assms(2,3) show ?thesis by (auto simp: map_has_get map_get_set split: if_splits)
next
  case (JoinRoom r username)
  show ?thesis
  proof (cases "map_get (rooms s) r")
    case None
    with assms JoinRoom show ?thesis by (simp add: on_joinRoom_absent)
  next
    case (Some room0)
    with assms JoinRoom show ?thesis
      by (auto simp: on_joinRoom_present map_get_set addPlayer_hostId split: if_splits)
  qed
next
  case (UpdateGameState state)
  with assms show ?thesis
    by (auto simp: on_updateGameState_sender sender_room_Some map_get_set updateGameState_hostId
          split: option.splits if_splits)
next
  case (SubmitVote v t)
  with assms(1) have "s' = s" using forward_to_host_state[of s sid] by (metis handle.simps(4) fst_conv option.inject)
  with assms show ?thesis by simp
next
  case (SubmitDescription p d)
  with assms(1) have "s' = s" using forward_to_host_state[of s sid] by (metis handle.simps(5) fst_conv option.inject)
  with assms show ?thesis by simp
next
  case (SubmitMrWhiteGuess g)
  with assms(1) have "s' = s" using forward_to_host_state[of s sid] by (metis handle.simps(6) fst_conv option.inject)
  with assms show ?thesis by simp
next
  case LeaveRoom
  with assms show ?thesis
    by (auto simp: handlePlayerDisconnect_sender sender_room_Some map_get_set map_get_delete
          removePlayer_hostId split: option.splits if_splits)
next
  case Disconnect
  with assms show ?thesis
    by (auto simp: handlePlayerDisconnect_sender sender_room_Some map_get_set map_get_delete
          removePlayer_hostId split: option.splits if_splits)
qed







end
